theory Spec2Isabelle
  imports Complex_Main
begin

text \<open>
  A model of the numerical code of two notebooks: the Metropolis-Hastings sampler
  \<open>run_mcmc\<close> of \<open>Solutions-04\<close> with the straight-line model it is run on, and the
  radial-velocity forward model of \<open>05-Radial-Velocity\<close> with its Kepler solver and
  log-likelihood. Exceptions are values of a sum type; the random generator and scipy's
  root-finder are inputs of the functions that use them.
\<close>

section \<open>Floating-point values and numpy arrays\<close>

text \<open>
  The notebooks compute with numpy \<open>float64\<close> values. A value is modelled as a real
  number or one of the three special values of IEEE arithmetic. Finite arithmetic is exact
  (no rounding, no overflow, no signed zero); the special values follow the IEEE rules that
  numpy applies (numpy warns and continues where plain Python would raise).
\<close>

datatype fval = Fin real | PInf | NInf | NaN

datatype pyerr = IndexError | ValueError | TypeError | RuntimeError

fun fneg :: "fval \<Rightarrow> fval" where
  "fneg (Fin a) = Fin (- a)"
| "fneg PInf = NInf"
| "fneg NInf = PInf"
| "fneg NaN = NaN"

fun fadd :: "fval \<Rightarrow> fval \<Rightarrow> fval" where
  "fadd NaN _ = NaN"
| "fadd _ NaN = NaN"
| "fadd (Fin a) (Fin b) = Fin (a + b)"
| "fadd PInf NInf = NaN"
| "fadd NInf PInf = NaN"
| "fadd PInf _ = PInf"
| "fadd NInf _ = NInf"
| "fadd _ PInf = PInf"
| "fadd _ NInf = NInf"

definition fsub :: "fval \<Rightarrow> fval \<Rightarrow> fval" where
  "fsub a b = fadd a (fneg b)"

fun fsign :: "fval \<Rightarrow> real" where
  "fsign (Fin a) = sgn a"
| "fsign PInf = 1"
| "fsign NInf = - 1"
| "fsign NaN = 0"

definition inf_of_sign :: "real \<Rightarrow> fval" where
  "inf_of_sign s = (if 0 < s then PInf else if s < 0 then NInf else NaN)"

fun fmul :: "fval \<Rightarrow> fval \<Rightarrow> fval" where
  "fmul NaN _ = NaN"
| "fmul _ NaN = NaN"
| "fmul (Fin a) (Fin b) = Fin (a * b)"
| "fmul a b = inf_of_sign (fsign a * fsign b)"

text \<open>
  Division of numpy floats never raises: a finite non-zero value over zero is an infinity,
  zero over zero is NaN. The zero divisor is taken as \<open>+0\<close>.
\<close>

fun fdiv :: "fval \<Rightarrow> fval \<Rightarrow> fval" where
  "fdiv NaN _ = NaN"
| "fdiv _ NaN = NaN"
| "fdiv (Fin a) (Fin b) = (if b = 0 then inf_of_sign (sgn a) else Fin (a / b))"
| "fdiv (Fin a) _ = Fin 0"
| "fdiv a (Fin b) = inf_of_sign (fsign a * (if b < 0 then - 1 else 1))"
| "fdiv _ _ = NaN"

text \<open>\<open>x ** 2\<close>\<close>

definition fsquare :: "fval \<Rightarrow> fval" where
  "fsquare x = fmul x x"

text \<open>\<open>np.log\<close>: \<open>log(0) = -inf\<close>, the logarithm of a negative number is NaN.\<close>

fun flog :: "fval \<Rightarrow> fval" where
  "flog (Fin a) = (if a < 0 then NaN else if a = 0 then NInf else Fin (ln a))"
| "flog PInf = PInf"
| "flog NInf = NaN"
| "flog NaN = NaN"

text \<open>\<open>a > b\<close>: every comparison with NaN is false.\<close>

fun fgt :: "fval \<Rightarrow> fval \<Rightarrow> bool" where
  "fgt (Fin a) (Fin b) = (b < a)"
| "fgt PInf (Fin _) = True"
| "fgt PInf NInf = True"
| "fgt (Fin _) NInf = True"
| "fgt _ _ = False"

text \<open>\<open>fabs\<close>, \<open>==\<close> (false on NaN) and the C macro \<open>MIN(a, b) = ((a) < (b) ? (a) : (b))\<close>.\<close>

fun fabs :: "fval \<Rightarrow> fval" where
  "fabs (Fin a) = Fin \<bar>a\<bar>"
| "fabs PInf = PInf"
| "fabs NInf = PInf"
| "fabs NaN = NaN"

fun feq :: "fval \<Rightarrow> fval \<Rightarrow> bool" where
  "feq (Fin a) (Fin b) = (a = b)"
| "feq PInf PInf = True"
| "feq NInf NInf = True"
| "feq _ _ = False"

definition fmin :: "fval \<Rightarrow> fval \<Rightarrow> fval" where
  "fmin a b = (if fgt b a then a else b)"

text \<open>
  A numpy operand is a scalar or a one-dimensional array. Unary functions apply
  element-wise; binary operators broadcast (equal lengths, or one operand of length 1)
  and raise \<open>ValueError\<close> on any other pair of shapes.
\<close>

datatype ndarray = Scalar fval | Array "fval list"

fun np_map :: "(fval \<Rightarrow> fval) \<Rightarrow> ndarray \<Rightarrow> ndarray" where
  "np_map f (Scalar a) = Scalar (f a)"
| "np_map f (Array xs) = Array (map f xs)"

fun np_binop :: "(fval \<Rightarrow> fval \<Rightarrow> fval) \<Rightarrow> ndarray \<Rightarrow> ndarray \<Rightarrow> pyerr + ndarray" where
  "np_binop f (Scalar a) (Scalar b) = Inr (Scalar (f a b))"
| "np_binop f (Scalar a) (Array ys) = Inr (Array (map (f a) ys))"
| "np_binop f (Array xs) (Scalar b) = Inr (Array (map (\<lambda>x. f x b) xs))"
| "np_binop f (Array xs) (Array ys) =
     (if length xs = length ys then Inr (Array (map2 f xs ys))
      else if length xs = 1 then Inr (Array (map (f (hd xs)) ys))
      else if length ys = 1 then Inr (Array (map (\<lambda>x. f x (hd ys)) xs))
      else Inl ValueError)"

text \<open>\<open>np.sum\<close>; the sum of an empty array is \<open>0.0\<close>.\<close>

fun np_sum :: "ndarray \<Rightarrow> fval" where
  "np_sum (Scalar a) = a"
| "np_sum (Array xs) = foldl fadd (Fin 0) xs"

section \<open>Solutions-04: the straight-line model and its posterior\<close>

text \<open>
  \<^verbatim>\<open>def model(theta, x): return theta[0] + theta[1] * x\<close>
  \<open>theta\<close> is a row of the chain; reading past its end raises \<open>IndexError\<close>.
\<close>

definition model :: "fval list \<Rightarrow> ndarray \<Rightarrow> pyerr + ndarray" where
  "model theta x =
     (if length theta < 2 then Inl IndexError
      else Inr (np_map (fadd (theta ! 0)) (np_map (fmul (theta ! 1)) x)))"

text \<open>
  \<^verbatim>\<open>def ln_likelihood(theta, x, y, dy):
    return -0.5 * np.sum(np.log(2 * np.pi * dy ** 2)
                         + ((y - model(theta, x)) / dy) ** 2)\<close>
\<close>

definition ln_likelihood :: "fval list \<Rightarrow> ndarray \<Rightarrow> ndarray \<Rightarrow> ndarray \<Rightarrow> pyerr + fval" where
  "ln_likelihood theta x y dy =
     (let a = np_map (\<lambda>d. flog (fmul (Fin (2 * pi)) (fsquare d))) dy in
      case model theta x of Inl err \<Rightarrow> Inl err | Inr m \<Rightarrow>
      case np_binop fsub y m of Inl err \<Rightarrow> Inl err | Inr d \<Rightarrow>
      case np_binop fdiv d dy of Inl err \<Rightarrow> Inl err | Inr q \<Rightarrow>
      case np_binop fadd a (np_map fsquare q) of Inl err \<Rightarrow> Inl err | Inr s \<Rightarrow>
      Inr (fmul (Fin (- 1 / 2)) (np_sum s)))"

text \<open>\<^verbatim>\<open>def ln_prior(theta): return 0\<close>\<close>

definition ln_prior :: "fval list \<Rightarrow> fval" where
  "ln_prior theta = Fin 0"

text \<open>
  \<^verbatim>\<open>def ln_posterior(theta, x, y, dy):
    return ln_prior(theta) + ln_likelihood(theta, x, y, dy)\<close>
\<close>

definition ln_posterior :: "fval list \<Rightarrow> ndarray \<Rightarrow> ndarray \<Rightarrow> ndarray \<Rightarrow> pyerr + fval" where
  "ln_posterior theta x y dy =
     (case ln_likelihood theta x y dy of Inl err \<Rightarrow> Inl err
      | Inr l \<Rightarrow> Inr (fadd (ln_prior theta) l))"

text \<open>
  A call \<open>f(theta, *args)\<close> of a four-parameter function: any number of extra arguments
  other than three raises \<open>TypeError\<close>.
\<close>

fun star_args :: "(fval list \<Rightarrow> ndarray \<Rightarrow> ndarray \<Rightarrow> ndarray \<Rightarrow> pyerr + fval)
    \<Rightarrow> fval list \<Rightarrow> ndarray list \<Rightarrow> pyerr + fval" where
  "star_args f theta [x, y, dy] = f theta x y dy"
| "star_args f theta _ = Inl TypeError"

section \<open>Solutions-04: the Metropolis-Hastings sampler\<close>

text \<open>
  The two arrays that \<open>run_mcmc\<close> allocates and fills: \<open>chain\<close> has \<open>nsteps\<close> rows of
  \<open>ndim\<close> values, \<open>log_likes\<close> has \<open>nsteps\<close> values.
\<close>

record mcmc_state =
  chain :: "fval list list"
  log_likes :: "fval list"

text \<open>
  \<open>chain[0] = theta0\<close> copies a sequence of \<open>ndim\<close> values into the row, broadcasts a
  sequence of one value, and raises \<open>ValueError\<close> for any other length.
\<close>

definition assign_row :: "fval list \<Rightarrow> nat \<Rightarrow> pyerr + fval list" where
  "assign_row theta0 ndim =
     (if length theta0 = ndim then Inr theta0
      else if length theta0 = 1 then Inr (replicate ndim (hd theta0))
      else Inl ValueError)"

text \<open>
  The body of the loop at index \<open>i\<close>. The pseudo-random generator is an input of the
  model: \<open>randn i j\<close> is component \<open>j\<close> of the vector that \<open>np.random.randn(ndim)\<close>
  returns at step \<open>i\<close>, and \<open>rand i\<close> is the value of \<open>np.random.rand()\<close> at that step.
  \<^verbatim>\<open>
        theta_new = chain[i - 1] + stepsize * np.random.randn(ndim)
        log_like_new = ln_likelihood(theta_new, *args)
        log_p_accept = log_like_new - log_likes[i - 1]
        r = np.random.rand()
        if log_p_accept > np.log(r):
            chain[i] = theta_new
            log_likes[i] = log_like_new
        else:
            chain[i] = chain[i - 1]
            log_likes[i] = log_likes[i - 1]\<close>
  The candidate's value is computed by the notebook's global \<open>ln_likelihood\<close>, as the
  source has it, whatever function was passed as \<open>ln_posterior\<close>.
\<close>

definition theta_new :: "(nat \<Rightarrow> nat \<Rightarrow> real) \<Rightarrow> nat \<Rightarrow> fval \<Rightarrow> nat \<Rightarrow> mcmc_state \<Rightarrow> fval list" where
  "theta_new randn ndim stepsize i s =
     map2 fadd (chain s ! (i - 1)) (map (\<lambda>j. fmul stepsize (Fin (randn i j))) [0..<ndim])"

definition mcmc_step :: "(nat \<Rightarrow> nat \<Rightarrow> real) \<Rightarrow> (nat \<Rightarrow> real) \<Rightarrow> nat \<Rightarrow> fval \<Rightarrow> ndarray list
    \<Rightarrow> nat \<Rightarrow> mcmc_state \<Rightarrow> pyerr + mcmc_state" where
  "mcmc_step randn rand ndim stepsize args i s =
     (let th = theta_new randn ndim stepsize i s in
      case star_args ln_likelihood th args of Inl err \<Rightarrow> Inl err
      | Inr log_like_new \<Rightarrow>
          let log_p_accept = fsub log_like_new (log_likes s ! (i - 1));
              r = rand i
          in if fgt log_p_accept (flog (Fin r))
             then Inr (s\<lparr>chain := (chain s)[i := th],
                          log_likes := (log_likes s)[i := log_like_new]\<rparr>)
             else Inr (s\<lparr>chain := (chain s)[i := chain s ! (i - 1)],
                          log_likes := (log_likes s)[i := log_likes s ! (i - 1)]\<rparr>))"

text \<open>
  \<open>for i in range(1, nsteps)\<close>: \<open>mcmc_loop \<dots> k s\<close> is the state after the iterations
  \<open>i = 1, \<dots>, k\<close>, or the first exception raised on the way.
\<close>

primrec mcmc_loop :: "(nat \<Rightarrow> nat \<Rightarrow> real) \<Rightarrow> (nat \<Rightarrow> real) \<Rightarrow> nat \<Rightarrow> fval \<Rightarrow> ndarray list
    \<Rightarrow> nat \<Rightarrow> mcmc_state \<Rightarrow> pyerr + mcmc_state" where
  "mcmc_loop randn rand ndim stepsize args 0 s = Inr s"
| "mcmc_loop randn rand ndim stepsize args (Suc k) s =
     (case mcmc_loop randn rand ndim stepsize args k s of Inl err \<Rightarrow> Inl err
      | Inr s' \<Rightarrow> mcmc_step randn rand ndim stepsize args (Suc k) s')"

text \<open>
  The statements before the loop: allocate both arrays, store \<open>theta0\<close> in row 0
  (\<open>IndexError\<close> when there is no row 0) and the value of the supplied \<open>ln_posterior\<close>
  at that row in \<open>log_likes[0]\<close>.
\<close>

definition mcmc_init :: "(fval list \<Rightarrow> ndarray list \<Rightarrow> pyerr + fval) \<Rightarrow> nat \<Rightarrow> nat \<Rightarrow> fval list
    \<Rightarrow> ndarray list \<Rightarrow> pyerr + mcmc_state" where
  "mcmc_init ln_post nsteps ndim theta0 args =
     (let chain0 = replicate nsteps (replicate ndim (Fin 0)) in
      if nsteps = 0 then Inl IndexError
      else case assign_row theta0 ndim of Inl err \<Rightarrow> Inl err
      | Inr row \<Rightarrow>
          let chain1 = chain0[0 := row];
              log_likes0 = replicate nsteps (Fin 0)
          in case ln_post (chain1 ! 0) args of Inl err \<Rightarrow> Inl err
             | Inr l0 \<Rightarrow> Inr \<lparr>chain = chain1, log_likes = log_likes0[0 := l0]\<rparr>)"

text \<open>The state when the loop has run \<open>k\<close> iterations.\<close>

definition mcmc_run :: "(nat \<Rightarrow> nat \<Rightarrow> real) \<Rightarrow> (nat \<Rightarrow> real)
    \<Rightarrow> (fval list \<Rightarrow> ndarray list \<Rightarrow> pyerr + fval) \<Rightarrow> nat \<Rightarrow> nat \<Rightarrow> fval list \<Rightarrow> fval
    \<Rightarrow> ndarray list \<Rightarrow> nat \<Rightarrow> pyerr + mcmc_state" where
  "mcmc_run randn rand ln_post nsteps ndim theta0 stepsize args k =
     (case mcmc_init ln_post nsteps ndim theta0 args of Inl err \<Rightarrow> Inl err
      | Inr s0 \<Rightarrow> mcmc_loop randn rand ndim stepsize args k s0)"

text \<open>
  \<^verbatim>\<open>def run_mcmc(ln_posterior, nsteps, ndim, theta0, stepsize, args=()): ... return chain\<close>
\<close>

definition run_mcmc :: "(nat \<Rightarrow> nat \<Rightarrow> real) \<Rightarrow> (nat \<Rightarrow> real)
    \<Rightarrow> (fval list \<Rightarrow> ndarray list \<Rightarrow> pyerr + fval) \<Rightarrow> nat \<Rightarrow> nat \<Rightarrow> fval list \<Rightarrow> fval
    \<Rightarrow> ndarray list \<Rightarrow> pyerr + fval list list" where
  "run_mcmc randn rand ln_post nsteps ndim theta0 stepsize args =
     (case mcmc_run randn rand ln_post nsteps ndim theta0 stepsize args (nsteps - 1) of
        Inl err \<Rightarrow> Inl err
      | Inr s \<Rightarrow> Inr (chain s))"

section \<open>05-Radial-Velocity: Kepler's equation and the forward model\<close>

text \<open>
  More numpy functions on single values. \<open>x % 1\<close> is the fractional part, in \<open>[0, 1)\<close>,
  of a finite \<open>x\<close> and NaN otherwise; the trigonometric functions of an infinity are NaN;
  the square root of a negative number is NaN.
\<close>

fun fmod1 :: "fval \<Rightarrow> fval" where
  "fmod1 (Fin a) = Fin (frac a)"
| "fmod1 _ = NaN"

fun fsin :: "fval \<Rightarrow> fval" where
  "fsin (Fin a) = Fin (sin a)"
| "fsin _ = NaN"

fun fcos :: "fval \<Rightarrow> fval" where
  "fcos (Fin a) = Fin (cos a)"
| "fcos _ = NaN"

fun fsqrt :: "fval \<Rightarrow> fval" where
  "fsqrt (Fin a) = (if a < 0 then NaN else Fin (sqrt a))"
| "fsqrt PInf = PInf"
| "fsqrt NInf = NaN"
| "fsqrt NaN = NaN"

text \<open>
  The two-argument arctangent of reals: the angle in \<open>(-pi, pi]\<close> of the point \<open>(x, y)\<close>,
  and \<open>0\<close> at the origin.
\<close>

definition arctan2 :: "real \<Rightarrow> real \<Rightarrow> real" where
  "arctan2 y x =
     (if 0 < x then arctan (y / x)
      else if x < 0 \<and> 0 \<le> y then arctan (y / x) + pi
      else if x < 0 then arctan (y / x) - pi
      else if 0 < y then pi / 2
      else if y < 0 then - pi / 2
      else 0)"

text \<open>\<open>np.arctan2(y, x)\<close>, with the C library's values at the infinities.\<close>

fun farctan2 :: "fval \<Rightarrow> fval \<Rightarrow> fval" where
  "farctan2 NaN _ = NaN"
| "farctan2 _ NaN = NaN"
| "farctan2 (Fin y) (Fin x) = Fin (arctan2 y x)"
| "farctan2 (Fin y) PInf = Fin 0"
| "farctan2 (Fin y) NInf = Fin (if y < 0 then - pi else pi)"
| "farctan2 PInf (Fin x) = Fin (pi / 2)"
| "farctan2 NInf (Fin x) = Fin (- pi / 2)"
| "farctan2 PInf PInf = Fin (pi / 4)"
| "farctan2 PInf NInf = Fin (3 * pi / 4)"
| "farctan2 NInf PInf = Fin (- pi / 4)"
| "farctan2 NInf NInf = Fin (- 3 * pi / 4)"

text \<open>
  \<open>optimize.brentq\<close> is scipy's. The functions of the notebook below take the root-finder
  as a parameter \<open>brentq\<close>; the notebook's own are these with \<open>scipy_brentq\<close>, the model
  of \<open>brentq(f, a, b)\<close> with its default arguments that follows.
\<close>

type_synonym solver = "(fval \<Rightarrow> fval) \<Rightarrow> fval \<Rightarrow> fval \<Rightarrow> pyerr + fval"

text \<open>
  The defaults of \<open>brentq\<close>: \<open>xtol = 2e-12\<close>, \<open>rtol = 4 * np.finfo(float).eps = 2^-50\<close>,
  \<open>maxiter = 100\<close>.
\<close>

definition xtol :: real where
  "xtol = 2 / 10 ^ 12"

definition rtol :: real where
  "rtol = 1 / 2 ^ 50"

definition maxiter :: nat where
  "maxiter = 100"

text \<open>
  The variables of the loop in scipy's \<open>brentq.c\<close>: the previous and the current iterate,
  the end of the bracket opposite to the current iterate (\<open>xblk\<close>), the values of \<open>f\<close> at
  the three, and the last two steps.
\<close>

record brent_state =
  xpre :: fval
  xcur :: fval
  xblk :: fval
  fpre :: fval
  fcur :: fval
  fblk :: fval
  spre :: fval
  scur :: fval

text \<open>
  \<^verbatim>\<open>if (fpre*fcur < 0) { xblk = xpre; fblk = fpre; spre = scur = xcur - xpre; }\<close>
  (later versions of scipy compare the sign bits of two non-zero values, which is the
  same test on finite values).
\<close>

definition brent_bracket :: "brent_state \<Rightarrow> brent_state" where
  "brent_bracket st =
     (if fgt (Fin 0) (fmul (fpre st) (fcur st))
      then st\<lparr>xblk := xpre st, fblk := fpre st,
              spre := fsub (xcur st) (xpre st), scur := fsub (xcur st) (xpre st)\<rparr>
      else st)"

text \<open>
  \<^verbatim>\<open>if (fabs(fblk) < fabs(fcur)) {
    xpre = xcur; xcur = xblk; xblk = xpre;
    fpre = fcur; fcur = fblk; fblk = fpre; }\<close>
\<close>

definition brent_swap :: "brent_state \<Rightarrow> brent_state" where
  "brent_swap st =
     (if fgt (fabs (fcur st)) (fabs (fblk st))
      then st\<lparr>xpre := xcur st, xcur := xblk st, xblk := xcur st,
              fpre := fcur st, fcur := fblk st, fblk := fcur st\<rparr>
      else st)"

text \<open>
  The trial step \<open>stry\<close>: the secant step when \<open>xpre == xblk\<close>,
  \<^verbatim>\<open>-fcur*(xcur - xpre)/(fcur - fpre)\<close>, and otherwise the extrapolation
  \<^verbatim>\<open>dpre = (fpre - fcur)/(xpre - xcur); dblk = (fblk - fcur)/(xblk - xcur);
stry = -fcur*(fblk*dblk - fpre*dpre)/(dblk*dpre*(fblk - fpre));\<close>
\<close>

definition brent_try :: "brent_state \<Rightarrow> fval" where
  "brent_try st =
     (if feq (xpre st) (xblk st)
      then fdiv (fmul (fneg (fcur st)) (fsub (xcur st) (xpre st))) (fsub (fcur st) (fpre st))
      else let dpre = fdiv (fsub (fpre st) (fcur st)) (fsub (xpre st) (xcur st));
               dblk = fdiv (fsub (fblk st) (fcur st)) (fsub (xblk st) (xcur st))
           in fdiv (fmul (fneg (fcur st)) (fsub (fmul (fblk st) dblk) (fmul (fpre st) dpre)))
                   (fmul (fmul dblk dpre) (fsub (fblk st) (fpre st))))"

text \<open>
  One pass through the body of the loop: \<open>Inl x\<close> when it returns \<open>x\<close>, \<open>Inr\<close> the
  variables for the next pass otherwise. After the two updates above,
  \<^verbatim>\<open>delta = (xtol + rtol*fabs(xcur))/2;
sbis = (xblk - xcur)/2;
if (fcur == 0 || fabs(sbis) < delta) return xcur;\<close>
  then the trial step is taken (\<open>spre = scur; scur = stry\<close>) when
  \<^verbatim>\<open>fabs(spre) > delta && fabs(fcur) < fabs(fpre)\<close> and
  \<^verbatim>\<open>2*fabs(stry) < MIN(fabs(spre), 3*fabs(sbis) - delta)\<close>, and the bisection step
  (\<open>spre = sbis; scur = sbis\<close>) otherwise; last
  \<^verbatim>\<open>xpre = xcur; fpre = fcur;
if (fabs(scur) > delta) xcur += scur; else xcur += (sbis > 0 ? delta : -delta);
fcur = f(xcur);\<close>
\<close>

definition brent_step :: "(fval \<Rightarrow> fval) \<Rightarrow> brent_state \<Rightarrow> fval + brent_state" where
  "brent_step f st0 =
     (let st = brent_swap (brent_bracket st0);
          delta = fdiv (fadd (Fin xtol) (fmul (Fin rtol) (fabs (xcur st)))) (Fin 2);
          sbis = fdiv (fsub (xblk st) (xcur st)) (Fin 2)
      in if feq (fcur st) (Fin 0) \<or> fgt delta (fabs sbis) then Inl (xcur st)
         else
           let stry = brent_try st;
               good = (fgt (fabs (spre st)) delta \<and> fgt (fabs (fpre st)) (fabs (fcur st))
                       \<and> fgt (fmin (fabs (spre st)) (fsub (fmul (Fin 3) (fabs sbis)) delta))
                              (fmul (Fin 2) (fabs stry)));
               spre' = (if good then scur st else sbis);
               scur' = (if good then stry else sbis);
               xcur' = (if fgt (fabs scur') delta then fadd (xcur st) scur'
                        else fadd (xcur st) (if fgt sbis (Fin 0) then delta else fneg delta))
           in Inr \<lparr>xpre = xcur st, xcur = xcur', xblk = xblk st,
                    fpre = fcur st, fcur = f xcur', fblk = fblk st,
                    spre = spre', scur = scur'\<rparr>)"

text \<open>
  \<open>for (i = 0; i < iter; i++)\<close>: at most \<open>iter\<close> passes; when none of them returns, the
  Python wrapper raises \<open>RuntimeError\<close>.
\<close>

primrec brent_loop :: "(fval \<Rightarrow> fval) \<Rightarrow> nat \<Rightarrow> brent_state \<Rightarrow> pyerr + fval" where
  "brent_loop f 0 st = Inl RuntimeError"
| "brent_loop f (Suc n) st =
     (case brent_step f st of Inl x \<Rightarrow> Inr x | Inr st' \<Rightarrow> brent_loop f n st')"

text \<open>
  Before the loop: \<open>ValueError\<close> when \<open>f(a) * f(b) > 0\<close>, and an end of the bracket
  where \<open>f\<close> is \<open>0\<close> is returned at once.
\<close>

definition scipy_brentq :: solver where
  "scipy_brentq f a b =
     (let fa = f a; fb = f b
      in if fgt (fmul fa fb) (Fin 0) then Inl ValueError
         else if feq fa (Fin 0) then Inr a
         else if feq fb (Fin 0) then Inr b
         else brent_loop f maxiter
                \<lparr>xpre = a, xcur = b, xblk = Fin 0, fpre = fa, fcur = fb, fblk = Fin 0,
                 spre = Fin 0, scur = Fin 0\<rparr>)"

text \<open>The calls made one after the other; the first exception ends the sequence.\<close>

fun sequence_err :: "(pyerr + 'a) list \<Rightarrow> pyerr + 'a list" where
  "sequence_err [] = Inr []"
| "sequence_err (r # rs) =
     (case r of Inl err \<Rightarrow> Inl err
      | Inr x \<Rightarrow> (case sequence_err rs of Inl err \<Rightarrow> Inl err | Inr xs \<Rightarrow> Inr (x # xs)))"

text \<open>\<open>f = lambda E, M=M, e=e: E - e * np.sin(E) - M\<close>\<close>

definition kepler_f :: "fval \<Rightarrow> fval \<Rightarrow> fval \<Rightarrow> fval" where
  "kepler_f M e E = fsub (fsub E (fmul e (fsin E))) M"

text \<open>
  \<^verbatim>\<open>@np.vectorize
def compute_E(M, e):
    f = lambda E, M=M, e=e: E - e * np.sin(E) - M
    return optimize.brentq(f, 0, 2 * np.pi)\<close>
  \<open>compute_E_scalar\<close> is the decorated function. \<open>np.vectorize\<close> (without \<open>otypes\<close>)
  calls it once for each element of \<open>M\<close>, in order, and raises \<open>ValueError\<close> when \<open>M\<close>
  has no element; \<open>e\<close> is a single value.
\<close>

definition compute_E_scalar :: "solver \<Rightarrow> fval \<Rightarrow> fval \<Rightarrow> pyerr + fval" where
  "compute_E_scalar brentq M e = brentq (kepler_f M e) (Fin 0) (Fin (2 * pi))"

fun compute_E :: "solver \<Rightarrow> ndarray \<Rightarrow> fval \<Rightarrow> pyerr + ndarray" where
  "compute_E brentq (Scalar M) e =
     (case compute_E_scalar brentq M e of Inl err \<Rightarrow> Inl err | Inr E \<Rightarrow> Inr (Scalar E))"
| "compute_E brentq (Array Ms) e =
     (if Ms = [] then Inl ValueError
      else case sequence_err (map (\<lambda>M. compute_E_scalar brentq M e) Ms) of
             Inl err \<Rightarrow> Inl err
           | Inr Es \<Rightarrow> Inr (Array Es))"

text \<open>
  \<^verbatim>\<open>def radial_velocity(t, theta):
    T, e, K, V, omega, chi = theta[:6]
    M = 2 * np.pi * ((t / T + chi) % 1)
    E = compute_E(M, e)
    f = 2 * np.arctan2(np.sqrt(1 + e) * np.sin(E / 2),
                       np.sqrt(1 - e) * np.cos(E / 2))
    return V - K * (np.sin(f + omega) + e * np.sin(omega))\<close>
  \<open>t\<close> is a numpy scalar or array; unpacking fewer than six values raises
  \<open>ValueError\<close>. Both arguments of \<open>arctan2\<close> are computed element by element from the
  same \<open>E\<close>.
\<close>

definition mean_anomaly :: "fval \<Rightarrow> fval \<Rightarrow> fval \<Rightarrow> fval" where
  "mean_anomaly T chi t = fmul (Fin (2 * pi)) (fmod1 (fadd (fdiv t T) chi))"

definition true_anomaly :: "fval \<Rightarrow> fval \<Rightarrow> fval" where
  "true_anomaly e E =
     fmul (Fin 2) (farctan2 (fmul (fsqrt (fadd (Fin 1) e)) (fsin (fdiv E (Fin 2))))
                            (fmul (fsqrt (fsub (Fin 1) e)) (fcos (fdiv E (Fin 2)))))"

definition radial_velocity :: "solver \<Rightarrow> ndarray \<Rightarrow> fval list \<Rightarrow> pyerr + ndarray" where
  "radial_velocity brentq t theta =
     (if length theta < 6 then Inl ValueError
      else let T = theta ! 0; e = theta ! 1; K = theta ! 2; V = theta ! 3;
               omega = theta ! 4; chi = theta ! 5;
               M = np_map (mean_anomaly T chi) t
           in case compute_E brentq M e of Inl err \<Rightarrow> Inl err
              | Inr E \<Rightarrow>
                  let f = np_map (true_anomaly e) E
                  in Inr (np_map (\<lambda>f. fsub V (fmul K (fadd (fsin (fadd f omega))
                                                          (fmul e (fsin omega))))) f))"

text \<open>
  \<open>ndarray.item()\<close>: the single element of a scalar or of an array of size 1,
  \<open>ValueError\<close> for any other array.
\<close>

fun item :: "ndarray \<Rightarrow> pyerr + fval" where
  "item (Scalar v) = Inr v"
| "item (Array [v]) = Inr v"
| "item (Array _) = Inl ValueError"

text \<open>The forward model called on one time, its result read as a single value.\<close>

definition radial_velocity_item :: "solver \<Rightarrow> fval list \<Rightarrow> fval \<Rightarrow> pyerr + fval" where
  "radial_velocity_item brentq theta t =
     (case radial_velocity brentq (Scalar t) theta of Inl err \<Rightarrow> Inl err | Inr v \<Rightarrow> item v)"

text \<open>
  The limits of the parameters, \<open>theta_lim\<close>, in the order
  \<open>T, e, K, V, omega, chi, s\<close>, and the test of \<open>log_prior\<close>,
  \<^verbatim>\<open>np.any(theta < theta_min) or np.any(theta > theta_max)\<close>, on seven values.
\<close>

definition theta_min :: "fval list" where
  "theta_min = [Fin (2 / 10), Fin 0, Fin (1 / 100), Fin (- 2000), Fin 0, Fin 0, Fin (1 / 1000)]"

definition theta_max :: "fval list" where
  "theta_max = [Fin 2000, Fin 1, Fin 2000, Fin 2000, Fin (2 * pi), Fin 1, Fin 100]"

definition out_of_range :: "fval list \<Rightarrow> bool" where
  "out_of_range theta =
     (list_ex (\<lambda>(a, b). fgt b a) (zip theta theta_min)
      \<or> list_ex (\<lambda>(a, b). fgt a b) (zip theta theta_max))"

text \<open>
  \<^verbatim>\<open>def log_likelihood(theta, t, rv, rv_err):
    sq_err = rv_err ** 2 + theta[6] ** 2
    rv_model = radial_velocity(t, theta)
    return -0.5 * np.sum(np.log(sq_err) + (rv - rv_model) ** 2 / sq_err)\<close>
\<close>

definition log_likelihood :: "solver \<Rightarrow> fval list \<Rightarrow> ndarray \<Rightarrow> ndarray \<Rightarrow> ndarray
    \<Rightarrow> pyerr + fval" where
  "log_likelihood brentq theta t rv rv_err =
     (if length theta < 7 then Inl IndexError
      else let sq_err = np_map (\<lambda>x. fadd x (fsquare (theta ! 6))) (np_map fsquare rv_err) in
        case radial_velocity brentq t theta of Inl err \<Rightarrow> Inl err | Inr rv_model \<Rightarrow>
        case np_binop fsub rv rv_model of Inl err \<Rightarrow> Inl err | Inr d \<Rightarrow>
        case np_binop fdiv (np_map fsquare d) sq_err of Inl err \<Rightarrow> Inl err | Inr q \<Rightarrow>
        case np_binop fadd (np_map flog sq_err) q of Inl err \<Rightarrow> Inl err | Inr s \<Rightarrow>
        Inr (fmul (Fin (- 1 / 2)) (np_sum s)))"

section \<open>Example inputs\<close>

text \<open>
  Concrete inputs on which the functions above are evaluated below: one observation
  \<open>(x, y, dy) = (0, -1, 1)\<close>, the same observation with an infinite error bar, a
  generator whose normal draw is \<open>(-1, 0, 0, \<dots>)\<close> and whose uniform draw is \<open>1/2\<close> at
  every step, and a generator whose uniform draw is \<open>0\<close>.
\<close>

definition data_ex :: "ndarray list" where
  "data_ex = [Array [Fin 0], Array [Fin (- 1)], Array [Fin 1]]"

definition data_inf :: "ndarray list" where
  "data_inf = [Array [Fin 0], Array [Fin 0], Array [PInf]]"

definition randn_ex :: "nat \<Rightarrow> nat \<Rightarrow> real" where
  "randn_ex i j = (if j = 0 then - 1 else 0)"

definition rand_ex :: "nat \<Rightarrow> real" where
  "rand_ex i = 1 / 2"

definition rand_zero :: "nat \<Rightarrow> real" where
  "rand_zero i = 0"

text \<open>
  Two functions a caller can pass as \<open>ln_posterior\<close>: the notebook's own, as it is called
  with \<open>*args\<close>, and one with a bounded prior (no support where \<open>theta[0] < 0\<close>), built
  the way \<open>log_posterior\<close> of the radial-velocity notebook is.
\<close>

definition ln_posterior_args :: "fval list \<Rightarrow> ndarray list \<Rightarrow> pyerr + fval" where
  "ln_posterior_args = star_args ln_posterior"

definition ln_posterior_bounded :: "fval list \<Rightarrow> ndarray list \<Rightarrow> pyerr + fval" where
  "ln_posterior_bounded theta args =
     (if length theta < 1 then Inl IndexError
      else if fgt (Fin 0) (theta ! 0) then Inr NInf
      else star_args ln_posterior theta args)"

text \<open>The sampler's state when the loop starts, for the two data sets, from \<open>theta0 = (0, 1)\<close>.\<close>

definition state_ex :: mcmc_state where
  "state_ex = \<lparr>chain = [[Fin 0, Fin 1], [Fin 0, Fin 0]],
                log_likes = [Fin (- 1 / 2 * (ln (2 * pi) + 1)), Fin 0]\<rparr>"

definition state_inf :: mcmc_state where
  "state_inf = \<lparr>chain = [[Fin 0, Fin 1], [Fin 0, Fin 0]], log_likes = [NInf, Fin 0]\<rparr>"

definition state_ex_final :: mcmc_state where
  "state_ex_final = \<lparr>chain = [[Fin 0, Fin 1], [Fin (- 1), Fin 1]],
     log_likes = [Fin (- 1 / 2 * (ln (2 * pi) + 1)), Fin (- 1 / 2 * ln (2 * pi))]\<rparr>"

text \<open>
  For a circular orbit (\<open>e = 0\<close>) the solver is called on \<open>E - M\<close> over \<open>[0, 2 pi]\<close>:
  the variables with which its loop starts, and the largest \<open>delta\<close> of the loop on that
  bracket.
\<close>

definition brent_init :: "real \<Rightarrow> brent_state" where
  "brent_init M = \<lparr>xpre = Fin 0, xcur = Fin (2 * pi), xblk = Fin 0, fpre = Fin (- M),
     fcur = Fin (2 * pi - M), fblk = Fin 0, spre = Fin 0, scur = Fin 0\<rparr>"

definition brentq_tol :: real where
  "brentq_tol = (xtol + rtol * (2 * pi)) / 2"

text \<open>A circular orbit, \<open>(T, e, K, V, omega, chi, s) = (4, 0, 1, 0, 0, 0, 1)\<close>.\<close>

definition theta_circular :: "fval list" where
  "theta_circular = [Fin 4, Fin 0, Fin 1, Fin 0, Fin 0, Fin 0, Fin 1]"

section \<open>The sampler: shape of the arrays\<close>

lemma mcmc_step_lengths:
  "mcmc_step randn rand ndim stepsize args i s = Inr s' \<Longrightarrow>
   length (chain s') = length (chain s) \<and> length (log_likes s') = length (log_likes s)"
  by (auto simp: mcmc_step_def Let_def split: sum.splits if_splits)

lemma mcmc_step_first:
  "mcmc_step randn rand ndim stepsize args i s = Inr s' \<Longrightarrow> 0 < i \<Longrightarrow>
   chain s' ! 0 = chain s ! 0 \<and> log_likes s' ! 0 = log_likes s ! 0"
  by (auto simp: mcmc_step_def Let_def split: sum.splits if_splits)

lemma mcmc_loop_inv:
  "mcmc_loop randn rand ndim stepsize args k s = Inr s' \<Longrightarrow>
   length (chain s') = length (chain s) \<and> length (log_likes s') = length (log_likes s)
   \<and> chain s' ! 0 = chain s ! 0 \<and> log_likes s' ! 0 = log_likes s ! 0"
proof (induction k arbitrary: s')
  case 0
  then show ?case by simp
next
  case (Suc k)
  then obtain m where m: "mcmc_loop randn rand ndim stepsize args k s = Inr m"
    and st: "mcmc_step randn rand ndim stepsize args (Suc k) m = Inr s'"
    by (auto split: sum.splits)
  from Suc.IH [OF m] mcmc_step_lengths [OF st] mcmc_step_first [OF st]
  show ?case by simp
qed

lemma mcmc_init_inv:
  assumes "mcmc_init p nsteps ndim theta0 args = Inr s" and "length theta0 = ndim"
  shows "length (chain s) = nsteps \<and> length (log_likes s) = nsteps
    \<and> chain s ! 0 = theta0 \<and> p theta0 args = Inr (log_likes s ! 0) \<and> 1 \<le> nsteps"
  using assms
  by (auto simp: mcmc_init_def assign_row_def Let_def split: sum.splits if_splits)

lemma mcmc_step_rows:
  assumes "mcmc_step randn rand ndim stepsize args i s = Inr s'"
    and "0 < i" "i \<le> length (chain s)" "\<forall>r\<in>set (chain s). length r = ndim"
  shows "\<forall>r\<in>set (chain s'). length r = ndim"
proof -
  from assms have p: "chain s ! (i - 1) \<in> set (chain s)" by simp
  with assms(4) have l: "length (chain s ! (i - 1)) = ndim" by blast
  then have "length (theta_new randn ndim stepsize i s) = ndim"
    by (simp add: theta_new_def)
  with assms(1,4) l show ?thesis
    by (auto simp: mcmc_step_def Let_def split: sum.splits if_splits
        dest!: set_update_subset_insert [THEN subsetD])
qed

lemma mcmc_loop_rows:
  "mcmc_loop randn rand ndim stepsize args k s = Inr s' \<Longrightarrow> k \<le> length (chain s) \<Longrightarrow>
   \<forall>r\<in>set (chain s). length r = ndim \<Longrightarrow> \<forall>r\<in>set (chain s'). length r = ndim"
proof (induction k arbitrary: s')
  case 0
  then show ?case by simp
next
  case (Suc k)
  then obtain m where m: "mcmc_loop randn rand ndim stepsize args k s = Inr m"
    and st: "mcmc_step randn rand ndim stepsize args (Suc k) m = Inr s'"
    by (auto split: sum.splits)
  from Suc.IH [OF m] Suc.prems have r: "\<forall>r\<in>set (chain m). length r = ndim" by simp
  from mcmc_loop_inv [OF m] Suc.prems have "Suc k \<le> length (chain m)" by simp
  with mcmc_step_rows [OF st _ _ r] show ?case by simp
qed

lemma mcmc_init_rows:
  "mcmc_init p nsteps ndim theta0 args = Inr s \<Longrightarrow> \<forall>r\<in>set (chain s). length r = ndim"
  by (auto simp: mcmc_init_def assign_row_def Let_def split: sum.splits if_splits
      dest!: set_update_subset_insert [THEN subsetD])

lemma mcmc_step_total:
  assumes "\<forall>th. length th = ndim \<longrightarrow> (\<exists>l. star_args ln_likelihood th args = Inr l)"
    and "0 < i" "i \<le> length (chain s)" "\<forall>r\<in>set (chain s). length r = ndim"
  shows "\<exists>s'. mcmc_step randn rand ndim stepsize args i s = Inr s'"
proof -
  from assms have "chain s ! (i - 1) \<in> set (chain s)" by simp
  with assms(4) have "length (chain s ! (i - 1)) = ndim" by blast
  then have "length (theta_new randn ndim stepsize i s) = ndim"
    by (simp add: theta_new_def)
  with assms(1) obtain l where "star_args ln_likelihood (theta_new randn ndim stepsize i s) args = Inr l"
    by blast
  then show ?thesis by (simp add: mcmc_step_def Let_def)
qed

lemma mcmc_loop_total:
  assumes "\<forall>th. length th = ndim \<longrightarrow> (\<exists>l. star_args ln_likelihood th args = Inr l)"
    and "\<forall>r\<in>set (chain s). length r = ndim"
  shows "k \<le> length (chain s) \<Longrightarrow> \<exists>s'. mcmc_loop randn rand ndim stepsize args k s = Inr s'"
proof (induction k)
  case 0
  then show ?case by simp
next
  case (Suc k)
  then obtain m where m: "mcmc_loop randn rand ndim stepsize args k s = Inr m" by auto
  from mcmc_loop_rows [OF m _ assms(2)] Suc.prems
  have r: "\<forall>r\<in>set (chain m). length r = ndim" by simp
  from mcmc_loop_inv [OF m] Suc.prems have "Suc k \<le> length (chain m)" by simp
  from mcmc_step_total [OF assms(1) _ this r] m show ?case by simp
qed

lemma mcmc_init_total:
  assumes "1 \<le> nsteps" "length theta0 = ndim" "p theta0 args = Inr l0"
  shows "\<exists>s. mcmc_init p nsteps ndim theta0 args = Inr s"
  using assms by (cases nsteps) (simp_all add: mcmc_init_def assign_row_def Let_def)

lemma ln_likelihood_total:
  assumes "2 \<le> length th" "length xs = length ys" "length ys = length ds"
  shows "\<exists>l. star_args ln_likelihood th [Array xs, Array ys, Array ds] = Inr l"
  using assms by (simp add: ln_likelihood_def model_def Let_def)

text \<open>The states of a run: an iteration writes index \<open>i\<close> of both arrays and no other.\<close>

lemma mcmc_run_lengths:
  assumes "mcmc_run randn rand p nsteps ndim theta0 stepsize args k = Inr s"
  shows "length (chain s) = nsteps \<and> length (log_likes s) = nsteps"
proof -
  from assms obtain s0 where i: "mcmc_init p nsteps ndim theta0 args = Inr s0"
    and l: "mcmc_loop randn rand ndim stepsize args k s0 = Inr s"
    by (auto simp: mcmc_run_def split: sum.splits)
  from i have "length (chain s0) = nsteps \<and> length (log_likes s0) = nsteps"
    by (auto simp: mcmc_init_def Let_def split: sum.splits if_splits)
  with mcmc_loop_inv [OF l] show ?thesis by simp
qed

lemma mcmc_run_Suc:
  "mcmc_run randn rand p nsteps ndim theta0 stepsize args (Suc k)
   = (case mcmc_run randn rand p nsteps ndim theta0 stepsize args k of Inl err \<Rightarrow> Inl err
      | Inr s \<Rightarrow> mcmc_step randn rand ndim stepsize args (Suc k) s)"
  by (simp add: mcmc_run_def split: sum.splits)

lemma mcmc_step_other:
  "mcmc_step randn rand ndim stepsize args i s = Inr s' \<Longrightarrow> j \<noteq> i \<Longrightarrow>
   chain s' ! j = chain s ! j \<and> log_likes s' ! j = log_likes s ! j"
  by (auto simp: mcmc_step_def Let_def split: sum.splits if_splits)

lemma mcmc_run_later:
  assumes "mcmc_run randn rand p nsteps ndim theta0 stepsize args k = Inr s"
  shows "mcmc_run randn rand p nsteps ndim theta0 stepsize args (k + d) = Inr s' \<Longrightarrow> j \<le> k \<Longrightarrow>
   chain s' ! j = chain s ! j \<and> log_likes s' ! j = log_likes s ! j"
proof (induction d arbitrary: s')
  case 0
  with assms show ?case by simp
next
  case (Suc d)
  from Suc.prems(1) obtain m
    where m: "mcmc_run randn rand p nsteps ndim theta0 stepsize args (k + d) = Inr m"
      and st: "mcmc_step randn rand ndim stepsize args (Suc (k + d)) m = Inr s'"
    by (auto simp: mcmc_run_Suc split: sum.splits)
  from Suc.prems(2) have "j \<noteq> Suc (k + d)" by simp
  from mcmc_step_other [OF st this] Suc.IH [OF m Suc.prems(2)] show ?case by simp
qed

lemma mcmc_run_accept:
  assumes "mcmc_run randn rand p nsteps ndim theta0 stepsize args k = Inr s"
    and "Suc k < nsteps"
    and "star_args ln_likelihood (theta_new randn ndim stepsize (Suc k) s) args = Inr L'"
    and "fgt (fsub L' (log_likes s ! k)) (flog (Fin (rand (Suc k))))"
  shows "\<exists>s'. mcmc_run randn rand p nsteps ndim theta0 stepsize args (Suc k) = Inr s'
         \<and> chain s' ! Suc k = theta_new randn ndim stepsize (Suc k) s
         \<and> log_likes s' ! Suc k = L'"
proof -
  from mcmc_run_lengths [OF assms(1)] assms(2)
  have len: "Suc k < length (chain s)" "Suc k < length (log_likes s)" by simp_all
  from assms(3,4) have "mcmc_step randn rand ndim stepsize args (Suc k) s
      = Inr (s\<lparr>chain := (chain s)[Suc k := theta_new randn ndim stepsize (Suc k) s],
               log_likes := (log_likes s)[Suc k := L']\<rparr>)"
    by (simp add: mcmc_step_def Let_def)
  with assms(1) len show ?thesis by (simp add: mcmc_run_Suc)
qed

lemma run_mcmc_row:
  assumes "mcmc_run randn rand p nsteps ndim theta0 stepsize args k = Inr s"
    and "k < nsteps"
    and "run_mcmc randn rand p nsteps ndim theta0 stepsize args = Inr c"
  shows "c ! k = chain s ! k"
proof -
  from assms(3) obtain sf
    where sf: "mcmc_run randn rand p nsteps ndim theta0 stepsize args (nsteps - 1) = Inr sf"
      and cs: "c = chain sf"
    by (auto simp: run_mcmc_def split: sum.splits)
  from assms(2) have "nsteps - 1 = k + (nsteps - 1 - k)" by simp
  with sf have "mcmc_run randn rand p nsteps ndim theta0 stepsize args (k + (nsteps - 1 - k)) = Inr sf"
    by simp
  from mcmc_run_later [OF assms(1) this, of k] cs show ?thesis by simp
qed

text \<open>
  One pass through the body of the loop, on the value \<open>L'\<close> that it computes for the
  candidate: the candidate and \<open>L'\<close> are stored exactly when \<open>L' - L\<^sub>i\<^sub>-\<^sub>1 > log r\<close>,
  the previous entries are repeated otherwise.
\<close>

lemma mcmc_step_acceptance:
  assumes "star_args ln_likelihood (theta_new randn ndim stepsize i s) args = Inr L'"
    and "1 \<le> i" and "i < length (chain s)" and "i < length (log_likes s)"
    and "0 \<le> rand i" and "rand i < 1"
  shows "\<exists>s'. mcmc_step randn rand ndim stepsize args i s = Inr s'
    \<and> (if fgt (fsub L' (log_likes s ! (i - 1))) (flog (Fin (rand i)))
       then chain s' ! i = theta_new randn ndim stepsize i s \<and> log_likes s' ! i = L'
       else chain s' ! i = chain s' ! (i - 1) \<and> log_likes s' ! i = log_likes s' ! (i - 1))
    \<and> chain s' ! (i - 1) = chain s ! (i - 1) \<and> log_likes s' ! (i - 1) = log_likes s ! (i - 1)
    \<and> (\<forall>a b. L' = Fin a \<and> log_likes s ! (i - 1) = Fin b \<and> b \<le> a
         \<longrightarrow> chain s' ! i = theta_new randn ndim stepsize i s \<and> log_likes s' ! i = L')"
proof -
  have mono: "fgt (fsub (Fin a) (Fin b)) (flog (Fin (rand i)))" if "b \<le> a" for a b
  proof (cases "rand i = 0")
    case True
    then show ?thesis by (simp add: fsub_def)
  next
    case False
    with assms(5,6) have "ln (rand i) < 0" by simp
    with that have "ln (rand i) < a - b" by linarith
    with False assms(5) show ?thesis by (simp add: fsub_def)
  qed
  show ?thesis
  proof (cases "fgt (fsub L' (log_likes s ! (i - 1))) (flog (Fin (rand i)))")
    case True
    with assms(1-4) show ?thesis
      by (simp add: mcmc_step_def Let_def)
  next
    case False
    with assms(1-4) mono show ?thesis
      by (auto simp: mcmc_step_def Let_def)
  qed
qed

section \<open>The sampler on the example inputs\<close>

lemma ln_likelihood_start_ex:
  "star_args ln_likelihood [Fin 0, Fin 1] data_ex = Inr (Fin (- 1 / 2 * (ln (2 * pi) + 1)))"
  by (simp add: data_ex_def ln_likelihood_def model_def fsub_def fsquare_def)

lemma ln_likelihood_candidate_ex:
  "star_args ln_likelihood [Fin (- 1), Fin 1] data_ex = Inr (Fin (- 1 / 2 * ln (2 * pi)))"
  by (simp add: data_ex_def ln_likelihood_def model_def fsub_def fsquare_def)

lemma ln_posterior_start_ex:
  "star_args ln_posterior [Fin 0, Fin 1] data_ex = Inr (Fin (- 1 / 2 * (ln (2 * pi) + 1)))"
  using ln_likelihood_start_ex by (simp add: data_ex_def ln_posterior_def ln_prior_def)

lemma theta_new_ex:
  "theta_new randn_ex 2 (Fin 1) (Suc 0) \<lparr>chain = [Fin 0, Fin 1] # cs, log_likes = ls\<rparr>
     = [Fin (- 1), Fin 1]"
  by (simp add: theta_new_def randn_ex_def upt_rec numeral_2_eq_2)

lemma mcmc_init_ex: "mcmc_init ln_posterior_bounded 2 2 [Fin 0, Fin 1] data_ex = Inr state_ex"
  by (simp add: mcmc_init_def assign_row_def ln_posterior_bounded_def ln_posterior_start_ex numeral_2_eq_2 state_ex_def)

lemma half_gt_ln_half: "ln (1 / 2 :: real) < (ln (2 * pi) + 1) / 2 - ln (2 * pi) / 2"
proof -
  have h: "ln (1 / 2 :: real) < 0" by simp
  have e: "(ln (2 * pi) + 1) / 2 - ln (2 * pi) / 2 = 1 / 2" by (simp add: add_divide_distrib)
  from h show ?thesis unfolding e by linarith
qed

lemma mcmc_step_ex: "mcmc_step randn_ex rand_ex 2 (Fin 1) data_ex (Suc 0) state_ex
   = Inr state_ex_final"
  using half_gt_ln_half
  by (simp add: mcmc_step_def state_ex_def state_ex_final_def theta_new_ex ln_likelihood_candidate_ex Let_def fsub_def
      rand_ex_def)

lemma ln_likelihood_data_inf:
  "length th = 2 \<Longrightarrow> th ! 0 = Fin a \<Longrightarrow> th ! 1 = Fin b \<Longrightarrow>
   star_args ln_likelihood th data_inf = Inr NInf"
  by (simp add: data_inf_def ln_likelihood_def model_def fsub_def fsquare_def inf_of_sign_def)

lemma ln_posterior_data_inf: "star_args ln_posterior [Fin 0, Fin 1] data_inf = Inr NInf"
  using ln_likelihood_data_inf [of "[Fin 0, Fin 1]" 0 1]
  by (simp add: data_inf_def ln_posterior_def ln_prior_def)

lemma mcmc_init_data_inf: "mcmc_init ln_posterior_args 2 2 [Fin 0, Fin 1] data_inf = Inr state_inf"
  by (simp add: mcmc_init_def assign_row_def ln_posterior_args_def ln_posterior_data_inf numeral_2_eq_2 state_inf_def)

lemma mcmc_step_data_inf: "mcmc_step randn_ex rand_ex 2 (Fin 1) data_inf (Suc 0) state_inf
   = Inr \<lparr>chain = [[Fin 0, Fin 1], [Fin 0, Fin 1]], log_likes = [NInf, NInf]\<rparr>"
  using ln_likelihood_data_inf [of "[Fin (- 1), Fin 1]" "- 1" 1]
  by (simp add: mcmc_step_def state_inf_def theta_new_ex Let_def fsub_def)

lemma mcmc_run_start_ex:
  "mcmc_run randn rand ln_posterior_bounded 2 2 [Fin 0, Fin 1] (Fin 1) data_ex 0 = Inr state_ex"
  by (simp add: mcmc_run_def mcmc_init_ex)

lemma mcmc_step_zero_ex:
  "mcmc_step randn_ex rand_zero 2 (Fin 1) data_ex (Suc 0) state_ex = Inr state_ex_final"
  by (simp add: mcmc_step_def state_ex_def state_ex_final_def theta_new_ex
      ln_likelihood_candidate_ex Let_def fsub_def rand_zero_def)

section \<open>The sampler: claims\<close>

text \<open>
  Claim C1 says that \<open>run_mcmc\<close> returns the pair (chain, log values). The function
  ends with \<open>return chain\<close>: here two calls that differ only in the posterior passed
  return the same value, the one-row chain, while the log values they computed differ.
\<close>

theorem run_mcmc_pair_counterexample:
  "run_mcmc randn_ex rand_ex ln_posterior_args 1 2 [Fin (- 1), Fin 1] (Fin 1) data_ex
     = Inr [[Fin (- 1), Fin 1]]
   \<and> run_mcmc randn_ex rand_ex ln_posterior_bounded 1 2 [Fin (- 1), Fin 1] (Fin 1) data_ex
     = Inr [[Fin (- 1), Fin 1]]
   \<and> mcmc_run randn_ex rand_ex ln_posterior_args 1 2 [Fin (- 1), Fin 1] (Fin 1) data_ex 0
     = Inr \<lparr>chain = [[Fin (- 1), Fin 1]], log_likes = [Fin (- 1 / 2 * ln (2 * pi))]\<rparr>
   \<and> mcmc_run randn_ex rand_ex ln_posterior_bounded 1 2 [Fin (- 1), Fin 1] (Fin 1) data_ex 0
     = Inr \<lparr>chain = [[Fin (- 1), Fin 1]], log_likes = [NInf]\<rparr>"
  using ln_likelihood_candidate_ex
  by (simp add: run_mcmc_def mcmc_run_def mcmc_init_def assign_row_def ln_posterior_args_def
      ln_posterior_bounded_def ln_posterior_def ln_prior_def data_ex_def)

text \<open>
  Claim C1, amended: for \<open>nsteps \<ge> 1\<close>, a \<open>theta0\<close> of \<open>ndim\<close> values, a posterior that
  returns a value at \<open>theta0\<close> and data on which \<open>ln_likelihood\<close> returns a value for
  every vector of \<open>ndim\<close> values, \<open>run_mcmc\<close> returns, and what it returns is the chain
  alone: \<open>nsteps\<close> rows of \<open>ndim\<close> values. The log values, \<open>nsteps\<close> of them, are
  computed and then dropped.
\<close>

theorem run_mcmc_returns_chain:
  assumes "1 \<le> nsteps" and "length theta0 = ndim" and "p theta0 args = Inr l0"
    and "\<forall>th. length th = ndim \<longrightarrow> (\<exists>l. star_args ln_likelihood th args = Inr l)"
  shows "\<exists>s. mcmc_run randn rand p nsteps ndim theta0 stepsize args (nsteps - 1) = Inr s
    \<and> run_mcmc randn rand p nsteps ndim theta0 stepsize args = Inr (chain s)
    \<and> length (chain s) = nsteps \<and> (\<forall>r\<in>set (chain s). length r = ndim)
    \<and> length (log_likes s) = nsteps"
proof -
  from mcmc_init_total [where p = p, OF assms(1-3)]
  obtain s0 where i: "mcmc_init p nsteps ndim theta0 args = Inr s0" by blast
  note inv0 = mcmc_init_inv [OF i assms(2)] and rows0 = mcmc_init_rows [OF i]
  from inv0 have k: "nsteps - 1 \<le> length (chain s0)" by simp
  from mcmc_loop_total [OF assms(4) rows0 k]
  obtain s where l: "mcmc_loop randn rand ndim stepsize args (nsteps - 1) s0 = Inr s" by blast
  from mcmc_loop_rows [OF l k rows0] mcmc_loop_inv [OF l] inv0 i l
  show ?thesis by (simp add: run_mcmc_def mcmc_run_def)
qed

theorem run_mcmc_returns_chain_witness:
  "\<exists>s. mcmc_run randn_ex rand_ex ln_posterior_bounded 2 2 [Fin 0, Fin 1] (Fin 1) data_ex (2 - 1)
         = Inr s
    \<and> run_mcmc randn_ex rand_ex ln_posterior_bounded 2 2 [Fin 0, Fin 1] (Fin 1) data_ex
         = Inr (chain s)
    \<and> length (chain s) = 2 \<and> (\<forall>r\<in>set (chain s). length r = 2)
    \<and> length (log_likes s) = 2"
proof -
  have a: "(1::nat) \<le> 2" "length [Fin 0, Fin 1] = 2" by simp_all
  have b: "ln_posterior_bounded [Fin 0, Fin 1] data_ex = Inr (Fin (- 1 / 2 * (ln (2 * pi) + 1)))"
    by (simp add: ln_posterior_bounded_def ln_posterior_start_ex)
  have c: "\<forall>th. length th = 2 \<longrightarrow> (\<exists>l. star_args ln_likelihood th data_ex = Inr l)"
    using ln_likelihood_total [of _ "[Fin 0]" "[Fin (- 1)]" "[Fin 1]"]
    by (simp add: data_ex_def)
  from run_mcmc_returns_chain [where p = ln_posterior_bounded, OF a b c] show ?thesis
    by simp
qed

text \<open>
  Claim C2 says that the value compared in the acceptance test is the supplied posterior at
  the candidate. The loop calls the global \<open>ln_likelihood\<close> instead. Evaluated on a
  posterior with a bounded prior: from \<open>theta0 = (0, 1)\<close> the candidate \<open>(-1, 1)\<close> has
  posterior \<open>-inf\<close>, yet it is accepted and the value stored beside it is its likelihood.
\<close>

theorem run_mcmc_candidate_value:
  "mcmc_run randn_ex rand_ex ln_posterior_bounded 2 2 [Fin 0, Fin 1] (Fin 1) data_ex 1
     = Inr state_ex_final
   \<and> chain state_ex_final ! 1 = [Fin (- 1), Fin 1]
   \<and> log_likes state_ex_final ! 1 = Fin (- 1 / 2 * ln (2 * pi))
   \<and> ln_posterior_bounded [Fin (- 1), Fin 1] data_ex = Inr NInf
   \<and> star_args ln_likelihood [Fin (- 1), Fin 1] data_ex = Inr (Fin (- 1 / 2 * ln (2 * pi)))"
  using mcmc_step_ex ln_likelihood_candidate_ex
  by (simp add: mcmc_run_def mcmc_init_ex ln_posterior_bounded_def) (simp add: state_ex_final_def)

text \<open>
  Claim C3: in every state that a run reaches, before the loop and after each of its
  iterations, both arrays have \<open>nsteps\<close> entries, row 0 of the chain is \<open>theta0\<close> and
  entry 0 of the log values is the supplied posterior at \<open>theta0\<close>. (\<open>theta0\<close> has
  \<open>ndim\<close> values, as the sampler's contract requires.)
\<close>

theorem chain_invariant:
  assumes "mcmc_run randn rand p nsteps ndim theta0 stepsize args k = Inr s"
    and "length theta0 = ndim" and "k \<le> nsteps - 1"
  shows "1 \<le> nsteps \<and> length (chain s) = nsteps \<and> length (log_likes s) = nsteps
    \<and> chain s ! 0 = theta0 \<and> p theta0 args = Inr (log_likes s ! 0)"
proof -
  from assms(1) obtain s0 where i: "mcmc_init p nsteps ndim theta0 args = Inr s0"
    and l: "mcmc_loop randn rand ndim stepsize args k s0 = Inr s"
    by (auto simp: mcmc_run_def split: sum.splits)
  from mcmc_init_inv [OF i assms(2)] mcmc_loop_inv [OF l] show ?thesis by simp
qed

theorem chain_invariant_witness:
  "mcmc_run randn_ex rand_ex ln_posterior_bounded 2 2 [Fin 0, Fin 1] (Fin 1) data_ex 1
     = Inr state_ex_final
   \<and> length (chain state_ex_final) = 2 \<and> length (log_likes state_ex_final) = 2
   \<and> chain state_ex_final ! 0 = [Fin 0, Fin 1]
   \<and> ln_posterior_bounded [Fin 0, Fin 1] data_ex = Inr (log_likes state_ex_final ! 0)"
proof -
  have r: "mcmc_run randn_ex rand_ex ln_posterior_bounded 2 2 [Fin 0, Fin 1] (Fin 1) data_ex 1
     = Inr state_ex_final"
    using mcmc_step_ex by (simp add: mcmc_run_def mcmc_init_ex state_ex_final_def)
  have l: "length [Fin 0, Fin 1] = (2::nat)" by simp
  have k: "(1::nat) \<le> 2 - 1" by simp
  from chain_invariant [OF r l k] r show ?thesis by simp
qed


text \<open>
  Claim C5 says that a candidate is accepted whenever the current value is \<open>-inf\<close>, also
  when its own value is \<open>-inf\<close>. In that tie the difference is NaN, the comparison is
  false and the previous row is repeated: on data with an infinite error bar both values
  are \<open>-inf\<close>, the candidate is \<open>(-1, 1)\<close> and the chain returned is \<open>(0, 1), (0, 1)\<close>.
\<close>

theorem both_minus_infinity_counterexample:
  "mcmc_run randn_ex rand_ex ln_posterior_args 2 2 [Fin 0, Fin 1] (Fin 1) data_inf 0
     = Inr state_inf
   \<and> log_likes state_inf ! 0 = NInf
   \<and> theta_new randn_ex 2 (Fin 1) 1 state_inf = [Fin (- 1), Fin 1]
   \<and> star_args ln_likelihood (theta_new randn_ex 2 (Fin 1) 1 state_inf) data_inf = Inr NInf
   \<and> run_mcmc randn_ex rand_ex ln_posterior_args 2 2 [Fin 0, Fin 1] (Fin 1) data_inf
       = Inr [[Fin 0, Fin 1], [Fin 0, Fin 1]]"
  using mcmc_step_data_inf ln_likelihood_data_inf [of "[Fin (- 1), Fin 1]" "- 1" 1]
  by (simp add: run_mcmc_def mcmc_run_def mcmc_init_data_inf) (simp add: state_inf_def theta_new_ex)

text \<open>
  Claim C5, amended: at a step whose current value is \<open>-inf\<close> (draw \<open>r \<ge> 0\<close>), a
  candidate with a finite value is accepted; a candidate whose value is also \<open>-inf\<close> is
  rejected and the previous entry of both arrays is repeated.
\<close>

theorem minus_infinity_step:
  assumes "star_args ln_likelihood (theta_new randn ndim stepsize i s) args = Inr L'"
    and "1 \<le> i" and "i < length (chain s)" and "i < length (log_likes s)"
    and "log_likes s ! (i - 1) = NInf" and "0 \<le> rand i"
  shows "\<exists>s'. mcmc_step randn rand ndim stepsize args i s = Inr s'
    \<and> ((\<exists>a. L' = Fin a) \<longrightarrow>
          chain s' ! i = theta_new randn ndim stepsize i s \<and> log_likes s' ! i = L')
    \<and> (L' = NInf \<longrightarrow>
          chain s' ! i = chain s ! (i - 1) \<and> log_likes s' ! i = log_likes s ! (i - 1))"
proof -
  have fin: "fgt (fsub (Fin a) NInf) (flog (Fin (rand i)))" for a
    using assms(6) by (simp add: fsub_def)
  have tie: "\<not> fgt (fsub NInf NInf) (flog (Fin (rand i)))"
    by (simp add: fsub_def)
  from assms(1-5) fin tie show ?thesis
    by (auto simp: mcmc_step_def Let_def)
qed

theorem minus_infinity_step_witness:
  "\<exists>s'. mcmc_step randn_ex rand_ex 2 (Fin 1) data_inf 1 state_inf = Inr s'
     \<and> chain s' ! 1 = [Fin 0, Fin 1] \<and> log_likes s' ! 1 = NInf"
proof -
  have a: "star_args ln_likelihood (theta_new randn_ex 2 (Fin 1) 1 state_inf) data_inf = Inr NInf"
    using ln_likelihood_data_inf [of "[Fin (- 1), Fin 1]" "- 1" 1] by (simp add: state_inf_def theta_new_ex)
  have b: "(1::nat) \<le> 1" "1 < length (chain state_inf)" "1 < length (log_likes state_inf)"
    "log_likes state_inf ! (1 - 1) = NInf" "0 \<le> rand_ex 1"
    by (simp_all add: state_inf_def rand_ex_def)
  from minus_infinity_step [where rand = rand_ex and i = 1, OF a b] show ?thesis
    by (auto simp: state_inf_def)
qed

text \<open>
  Claim C10: when the uniform draw of step \<open>i\<close> of a run, \<open>1 \<le> i < nsteps\<close>, is exactly
  \<open>0\<close>, the threshold \<open>log r\<close> is \<open>-inf\<close>, and a candidate whose log-acceptance ratio is
  neither \<open>-inf\<close> nor NaN is accepted: the state of the run after step \<open>i\<close> has the
  candidate and its value at index \<open>i\<close>, and so has the chain that \<open>run_mcmc\<close> returns.
\<close>

theorem zero_draw_accepts:
  assumes "mcmc_run randn rand p nsteps ndim theta0 stepsize args (i - 1) = Inr s"
    and "1 \<le> i" and "i < nsteps"
    and "star_args ln_likelihood (theta_new randn ndim stepsize i s) args = Inr L'"
    and "rand i = 0"
    and "fsub L' (log_likes s ! (i - 1)) \<noteq> NInf" and "fsub L' (log_likes s ! (i - 1)) \<noteq> NaN"
  shows "flog (Fin (rand i)) = NInf
    \<and> (\<exists>s'. mcmc_run randn rand p nsteps ndim theta0 stepsize args i = Inr s'
         \<and> chain s' ! i = theta_new randn ndim stepsize i s \<and> log_likes s' ! i = L')
    \<and> (\<forall>c. run_mcmc randn rand p nsteps ndim theta0 stepsize args = Inr c
         \<longrightarrow> c ! i = theta_new randn ndim stepsize i s)"
proof -
  from assms(2) obtain k where k: "i = Suc k" by (cases i) auto
  from assms(6,7) have g: "fgt (fsub L' (log_likes s ! (i - 1))) NInf"
    by (cases "fsub L' (log_likes s ! (i - 1))") simp_all
  have z: "flog (Fin (rand i)) = NInf" using assms(5) by simp
  from assms(1,3,4) g z
  have "\<exists>s'. mcmc_run randn rand p nsteps ndim theta0 stepsize args (Suc k) = Inr s'
         \<and> chain s' ! Suc k = theta_new randn ndim stepsize (Suc k) s
         \<and> log_likes s' ! Suc k = L'"
    unfolding k by (intro mcmc_run_accept) simp_all
  then obtain s' where r: "mcmc_run randn rand p nsteps ndim theta0 stepsize args i = Inr s'"
    and c: "chain s' ! i = theta_new randn ndim stepsize i s" and l: "log_likes s' ! i = L'"
    unfolding k by blast
  from run_mcmc_row [OF r assms(3)] c
  have "\<forall>c. run_mcmc randn rand p nsteps ndim theta0 stepsize args = Inr c
         \<longrightarrow> c ! i = theta_new randn ndim stepsize i s"
    by simp
  with z r c l show ?thesis by blast
qed

theorem zero_draw_accepts_witness:
  "flog (Fin (rand_zero 1)) = NInf
    \<and> (\<exists>s'. mcmc_run randn_ex rand_zero ln_posterior_bounded 2 2 [Fin 0, Fin 1] (Fin 1) data_ex 1
              = Inr s'
         \<and> chain s' ! 1 = [Fin (- 1), Fin 1] \<and> log_likes s' ! 1 = Fin (- 1 / 2 * ln (2 * pi)))
    \<and> run_mcmc randn_ex rand_zero ln_posterior_bounded 2 2 [Fin 0, Fin 1] (Fin 1) data_ex
         = Inr [[Fin 0, Fin 1], [Fin (- 1), Fin 1]]"
proof -
  have a: "mcmc_run randn_ex rand_zero ln_posterior_bounded 2 2 [Fin 0, Fin 1] (Fin 1) data_ex (1 - 1)
      = Inr state_ex"
    by (simp add: mcmc_run_start_ex)
  have b: "(1::nat) \<le> 1" "(1::nat) < 2" by simp_all
  have c: "star_args ln_likelihood (theta_new randn_ex 2 (Fin 1) 1 state_ex) data_ex
      = Inr (Fin (- 1 / 2 * ln (2 * pi)))"
    by (simp add: state_ex_def theta_new_ex ln_likelihood_candidate_ex)
  have d: "rand_zero 1 = 0" by (simp add: rand_zero_def)
  have "fsub (Fin (- 1 / 2 * ln (2 * pi))) (log_likes state_ex ! (1 - 1)) = Fin (1 / 2)"
    by (simp add: state_ex_def fsub_def add_divide_distrib)
  then have e: "fsub (Fin (- 1 / 2 * ln (2 * pi))) (log_likes state_ex ! (1 - 1)) \<noteq> NInf"
    "fsub (Fin (- 1 / 2 * ln (2 * pi))) (log_likes state_ex ! (1 - 1)) \<noteq> NaN"
    by simp_all
  have r: "run_mcmc randn_ex rand_zero ln_posterior_bounded 2 2 [Fin 0, Fin 1] (Fin 1) data_ex
         = Inr [[Fin 0, Fin 1], [Fin (- 1), Fin 1]]"
    using mcmc_step_zero_ex
    by (simp add: run_mcmc_def mcmc_run_def mcmc_init_ex state_ex_final_def)
  from zero_draw_accepts [where rand = rand_zero and i = 1, OF a b c d e] r show ?thesis
    by (simp add: state_ex_def theta_new_ex)
qed

section \<open>The forward model: lemmas\<close>

lemma sqrt_one_plus_tan:
  assumes "cos h \<noteq> 0"
  shows "sqrt (1 + (sin h / cos h)\<^sup>2) = 1 / \<bar>cos h\<bar>"
proof -
  have "(cos h)\<^sup>2 + (sin h)\<^sup>2 = 1" by simp
  then have "1 + (sin h / cos h)\<^sup>2 = 1 / (cos h)\<^sup>2"
    using assms by (simp add: power_divide divide_simps)
  then show ?thesis by (simp add: real_sqrt_divide)
qed

lemma arctan2_unit_circle:
  "cos (arctan2 (sin h) (cos h)) = cos h \<and> sin (arctan2 (sin h) (cos h)) = sin h"
proof -
  consider (pos) "0 < cos h" | (neg) "cos h < 0" | (zero) "cos h = 0" by linarith
  then show ?thesis
  proof cases
    case pos
    then show ?thesis
      by (simp add: arctan2_def cos_arctan sin_arctan sqrt_one_plus_tan)
  next
    case neg
    then show ?thesis
      by (simp add: arctan2_def cos_arctan sin_arctan sqrt_one_plus_tan)
  next
    case zero
    then have "(sin h)\<^sup>2 = 1" using sin_cos_squared_add [of h] by simp
    then have "sin h = 1 \<or> sin h = - 1" by (simp add: power2_eq_1_iff)
    with zero show ?thesis by (auto simp: arctan2_def)
  qed
qed

lemma sin_twice_arctan2:
  "sin (2 * arctan2 (sin h) (cos h) + w) = sin (2 * h + w)"
proof -
  let ?a = "arctan2 (sin h) (cos h)"
  from arctan2_unit_circle [of h] have c: "cos ?a = cos h" and s: "sin ?a = sin h" by simp_all
  have "sin (2 * ?a) = sin (2 * h)" "cos (2 * ?a) = cos (2 * h)"
    by (simp_all add: sin_double cos_double c s)
  then show ?thesis by (simp add: sin_add)
qed

lemma abs_sin_diff_le: "\<bar>sin x - sin (y::real)\<bar> \<le> \<bar>x - y\<bar>"
proof -
  have "sin x - sin y = 2 * sin ((x - y) / 2) * cos ((x + y) / 2)"
    by (rule sin_diff_sin)
  then have "\<bar>sin x - sin y\<bar> = 2 * \<bar>sin ((x - y) / 2)\<bar> * \<bar>cos ((x + y) / 2)\<bar>"
    by (simp add: abs_mult)
  also have "\<dots> \<le> 2 * \<bar>sin ((x - y) / 2)\<bar> * 1"
    by (intro mult_left_mono) simp_all
  also have "\<dots> \<le> 2 * \<bar>(x - y) / 2\<bar>"
    using abs_sin_x_le_abs_x [of "(x - y) / 2"] by simp
  finally show ?thesis by simp
qed

lemma true_anomaly_circular:
  "true_anomaly (Fin 0) (Fin E) = Fin (2 * arctan2 (sin (E / 2)) (cos (E / 2)))"
  by (simp add: true_anomaly_def fsub_def)

lemma mean_anomaly_finite:
  "T \<noteq> 0 \<Longrightarrow> mean_anomaly (Fin T) (Fin chi) (Fin t) = Fin (2 * pi * frac (t / T + chi))"
  by (simp add: mean_anomaly_def)

lemma frac_quarter: "frac (1 / 4 + 0 :: real) = 1 / 4"
  by (simp add: frac_unique_iff)

lemma kepler_zero: "kepler_f (Fin 0) (Fin 0) (Fin 0) = Fin 0"
  by (simp add: kepler_f_def fsub_def)

lemma kepler_f_finite:
  "kepler_f (Fin M) (Fin e) (Fin E) = Fin (E - e * sin E - M)"
  by (simp add: kepler_f_def fsub_def)

text \<open>Kepler's equation has a solution in the bracket, so the solver's promise can be kept.\<close>

lemma kepler_root_exists:
  assumes "0 \<le> M" and "M < 2 * pi"
  shows "\<exists>x. 0 \<le> x \<and> x \<le> 2 * pi \<and> kepler_f (Fin M) (Fin e) (Fin x) = Fin 0"
proof -
  have "\<exists>x. 0 \<le> x \<and> x \<le> 2 * pi \<and> (\<lambda>x. x - e * sin x - M) x = 0"
    using assms by (intro IVT) (auto intro!: continuous_intros)
  then show ?thesis by (simp add: kepler_f_finite)
qed

text \<open>The solver on a circular orbit, where the function is \<open>E - M\<close>.\<close>

lemma kepler_circ: "kepler_f (Fin M) (Fin 0) (Fin x) = Fin (x - M)"
  by (simp add: kepler_f_def fsub_def)

lemma brent_loop_two:
  "brent_step f st0 = Inr st1 \<Longrightarrow> brent_step f st1 = Inl x \<Longrightarrow>
   brent_loop f (Suc (Suc n)) st0 = Inr x"
  by simp

lemma maxiter_two: "maxiter = Suc (Suc 98)"
  by (simp add: maxiter_def)

lemma brentq_zero: "scipy_brentq (kepler_f (Fin 0) (Fin e)) (Fin 0) (Fin (2 * pi)) = Inr (Fin 0)"
  by (simp add: scipy_brentq_def kepler_f_def fsub_def Let_def)

lemma xtol_pos: "0 < xtol" by (simp add: xtol_def)
lemma rtol_pos: "0 < rtol" by (simp add: rtol_def)
lemma rtol_less_1: "rtol < 1" by (simp add: rtol_def)
lemma xtol_less_1: "xtol < 1" by (simp add: xtol_def)

lemma brentq_tol_bounds: "xtol / 2 < brentq_tol" "brentq_tol < 1"
proof -
  show "xtol / 2 < brentq_tol"
    using rtol_pos pi_gt_zero by (simp add: brentq_tol_def add_divide_distrib)
  have "rtol * (2 * pi) < rtol * 8" using pi_less_4 rtol_pos by simp
  also have "\<dots> < 1 / 2" by (simp add: rtol_def)
  finally show "brentq_tol < 1" using xtol_less_1 by (simp add: brentq_tol_def)
qed

lemma brent_step_root:
  assumes "fcur st = Fin 0" and "fpre st = Fin a" and "fblk st = Fin b"
  shows "brent_step f st = Inl (xcur st)"
  using assms by (simp add: brent_step_def brent_bracket_def brent_swap_def Let_def)

lemma brent_step_low:
  assumes "0 < M" and "M < pi"
  shows "brent_step (kepler_f (Fin M) (Fin 0)) (brent_init M)
    = Inr \<lparr>xpre = Fin 0, xcur = Fin (if xtol / 2 < M then M else xtol / 2), xblk = Fin (2 * pi),
           fpre = Fin (- M), fcur = Fin ((if xtol / 2 < M then M else xtol / 2) - M),
           fblk = Fin (2 * pi - M), spre = Fin (2 * pi), scur = Fin M\<rparr>"
proof -
  have b: "brent_bracket (brent_init M) = \<lparr>xpre = Fin 0, xcur = Fin (2 * pi), xblk = Fin 0,
      fpre = Fin (- M), fcur = Fin (2 * pi - M), fblk = Fin (- M),
      spre = Fin (2 * pi), scur = Fin (2 * pi)\<rparr>"
    using assms by (simp add: brent_bracket_def brent_init_def fsub_def mult_less_0_iff)
  have s: "brent_swap \<lparr>xpre = Fin 0, xcur = Fin (2 * pi), xblk = Fin 0,
      fpre = Fin (- M), fcur = Fin (2 * pi - M), fblk = Fin (- M),
      spre = Fin (2 * pi), scur = Fin (2 * pi)\<rparr>
    = \<lparr>xpre = Fin (2 * pi), xcur = Fin 0, xblk = Fin (2 * pi),
      fpre = Fin (2 * pi - M), fcur = Fin (- M), fblk = Fin (2 * pi - M),
      spre = Fin (2 * pi), scur = Fin (2 * pi)\<rparr>"
    using assms by (simp add: brent_swap_def)
  have e: "- M - (2 * pi - M) = - (2 * pi)" by simp
  have t: "brent_try \<lparr>xpre = Fin (2 * pi), xcur = Fin 0, xblk = Fin (2 * pi),
      fpre = Fin (2 * pi - M), fcur = Fin (- M), fblk = Fin (2 * pi - M),
      spre = Fin (2 * pi), scur = Fin (2 * pi)\<rparr> = Fin M"
    by (simp add: brent_try_def fsub_def e)
  show ?thesis
    unfolding brent_step_def b s t Let_def
    using assms xtol_pos xtol_less_1 pi_ge_two
    by (simp add: fsub_def fmin_def kepler_circ)
qed

lemma brent_step_low_second:
  assumes "0 < M" and "M < xtol / 2"
  shows "brent_step (kepler_f (Fin M) (Fin 0))
      \<lparr>xpre = Fin 0, xcur = Fin (xtol / 2), xblk = Fin (2 * pi),
       fpre = Fin (- M), fcur = Fin (xtol / 2 - M),
       fblk = Fin (2 * pi - M), spre = Fin (2 * pi), scur = Fin M\<rparr>
    = Inl (Fin (if 2 * M < xtol / 2 then 0 else xtol / 2))"
proof -
  have b: "brent_bracket \<lparr>xpre = Fin 0, xcur = Fin (xtol / 2), xblk = Fin (2 * pi),
       fpre = Fin (- M), fcur = Fin (xtol / 2 - M),
       fblk = Fin (2 * pi - M), spre = Fin (2 * pi), scur = Fin M\<rparr>
    = \<lparr>xpre = Fin 0, xcur = Fin (xtol / 2), xblk = Fin 0,
       fpre = Fin (- M), fcur = Fin (xtol / 2 - M),
       fblk = Fin (- M), spre = Fin (xtol / 2), scur = Fin (xtol / 2)\<rparr>"
    using assms by (simp add: brent_bracket_def fsub_def mult_less_0_iff)
  show ?thesis
  proof (cases "2 * M < xtol / 2")
    case True
    with assms xtol_pos rtol_pos show ?thesis
      unfolding brent_step_def b Let_def
      by (simp add: brent_swap_def fsub_def)
  next
    case False
    have "0 < xtol + rtol * xtol" using xtol_pos rtol_pos by (simp add: add_pos_pos)
    with False assms xtol_pos rtol_pos show ?thesis
      unfolding brent_step_def b Let_def
      by (simp add: brent_swap_def fsub_def)
  qed
qed

lemma brent_step_mid:
  "brent_step (kepler_f (Fin pi) (Fin 0)) (brent_init pi)
    = Inr \<lparr>xpre = Fin (2 * pi), xcur = Fin pi, xblk = Fin 0,
           fpre = Fin pi, fcur = Fin 0, fblk = Fin (- pi), spre = Fin (- pi), scur = Fin (- pi)\<rparr>"
proof -
  have b: "brent_bracket (brent_init pi) = \<lparr>xpre = Fin 0, xcur = Fin (2 * pi), xblk = Fin 0,
      fpre = Fin (- pi), fcur = Fin pi, fblk = Fin (- pi),
      spre = Fin (2 * pi), scur = Fin (2 * pi)\<rparr>"
    using pi_gt_zero by (simp add: brent_bracket_def brent_init_def fsub_def mult_less_0_iff)
  have d: "(xtol + rtol * (2 * pi)) / 2 < pi"
    using brentq_tol_bounds(2) pi_ge_two by (simp add: brentq_tol_def)
  show ?thesis
    unfolding brent_step_def b Let_def
    using d pi_gt_zero by (simp add: brent_swap_def fsub_def kepler_circ)
qed

lemma brent_step_high:
  assumes "pi < M" and "M < 2 * pi"
  shows "brent_step (kepler_f (Fin M) (Fin 0)) (brent_init M)
    = Inr \<lparr>xpre = Fin (2 * pi),
           xcur = Fin (if brentq_tol < 2 * pi - M then M else 2 * pi - brentq_tol),
           xblk = Fin 0, fpre = Fin (2 * pi - M),
           fcur = Fin ((if brentq_tol < 2 * pi - M then M else 2 * pi - brentq_tol) - M),
           fblk = Fin (- M), spre = Fin (2 * pi), scur = Fin (M - 2 * pi)\<rparr>"
proof -
  have b: "brent_bracket (brent_init M) = \<lparr>xpre = Fin 0, xcur = Fin (2 * pi), xblk = Fin 0,
      fpre = Fin (- M), fcur = Fin (2 * pi - M), fblk = Fin (- M),
      spre = Fin (2 * pi), scur = Fin (2 * pi)\<rparr>"
    using assms pi_gt_zero
    by (simp add: brent_bracket_def brent_init_def fsub_def mult_less_0_iff)
  have s: "brent_swap \<lparr>xpre = Fin 0, xcur = Fin (2 * pi), xblk = Fin 0,
      fpre = Fin (- M), fcur = Fin (2 * pi - M), fblk = Fin (- M),
      spre = Fin (2 * pi), scur = Fin (2 * pi)\<rparr>
    = \<lparr>xpre = Fin 0, xcur = Fin (2 * pi), xblk = Fin 0,
      fpre = Fin (- M), fcur = Fin (2 * pi - M), fblk = Fin (- M),
      spre = Fin (2 * pi), scur = Fin (2 * pi)\<rparr>"
    using assms by (simp add: brent_swap_def)
  have e: "2 * pi - M - (- M) = 2 * pi" by simp
  have t: "brent_try \<lparr>xpre = Fin 0, xcur = Fin (2 * pi), xblk = Fin 0,
      fpre = Fin (- M), fcur = Fin (2 * pi - M), fblk = Fin (- M),
      spre = Fin (2 * pi), scur = Fin (2 * pi)\<rparr> = Fin (M - 2 * pi)"
    using pi_gt_zero by (simp add: brent_try_def fsub_def e)
  have d: "(xtol + rtol * (2 * pi)) / 2 = brentq_tol" by (simp add: brentq_tol_def)
  show ?thesis
    unfolding brent_step_def b s t Let_def
    using assms brentq_tol_bounds pi_ge_two
    by (simp add: fsub_def fmin_def kepler_circ d)
qed

lemma brent_step_high_second:
  assumes "pi < M" and "M < 2 * pi" and "2 * pi - M < brentq_tol"
  shows "brent_step (kepler_f (Fin M) (Fin 0))
      \<lparr>xpre = Fin (2 * pi), xcur = Fin (2 * pi - brentq_tol), xblk = Fin 0,
       fpre = Fin (2 * pi - M), fcur = Fin (2 * pi - brentq_tol - M),
       fblk = Fin (- M), spre = Fin (2 * pi), scur = Fin (M - 2 * pi)\<rparr>
    = Inl (Fin (if 2 * pi - M < M - (2 * pi - brentq_tol) then 2 * pi else 2 * pi - brentq_tol))"
proof -
  have b: "brent_bracket \<lparr>xpre = Fin (2 * pi), xcur = Fin (2 * pi - brentq_tol), xblk = Fin 0,
       fpre = Fin (2 * pi - M), fcur = Fin (2 * pi - brentq_tol - M),
       fblk = Fin (- M), spre = Fin (2 * pi), scur = Fin (M - 2 * pi)\<rparr>
    = \<lparr>xpre = Fin (2 * pi), xcur = Fin (2 * pi - brentq_tol), xblk = Fin (2 * pi),
       fpre = Fin (2 * pi - M), fcur = Fin (2 * pi - brentq_tol - M),
       fblk = Fin (2 * pi - M), spre = Fin (- brentq_tol), scur = Fin (- brentq_tol)\<rparr>"
    using assms by (simp add: brent_bracket_def fsub_def mult_less_0_iff)
  have tp: "0 < brentq_tol" using brentq_tol_bounds(1) xtol_pos by simp
  have c: "0 < 2 * pi - brentq_tol" using brentq_tol_bounds(2) pi_ge_two by simp
  show ?thesis
  proof (cases "2 * pi - M < M - (2 * pi - brentq_tol)")
    case True
    have d: "(xtol + rtol * (2 * pi)) / 2 = brentq_tol" by (simp add: brentq_tol_def)
    from True assms tp show ?thesis
      unfolding brent_step_def b Let_def
      by (simp add: brent_swap_def fsub_def d)
  next
    case False
    have "brentq_tol - rtol * brentq_tol = (1 - rtol) * brentq_tol" by (simp add: algebra_simps)
    moreover have "0 < (1 - rtol) * brentq_tol" using rtol_less_1 tp by simp
    ultimately have r: "rtol * brentq_tol < brentq_tol" by simp
    have e: "xtol + rtol * (2 * pi - brentq_tol) = 2 * brentq_tol - rtol * brentq_tol"
      by (simp add: brentq_tol_def algebra_simps)
    have d: "brentq_tol / 2 < (xtol + rtol * (2 * pi - brentq_tol)) / 2"
      unfolding e using r by simp
    from False assms tp c d show ?thesis
      unfolding brent_step_def b Let_def
      by (simp add: brent_swap_def fsub_def)
  qed
qed

lemma scipy_brentq_loop:
  assumes "0 < M" and "M < 2 * pi"
  shows "scipy_brentq (kepler_f (Fin M) (Fin 0)) (Fin 0) (Fin (2 * pi))
    = brent_loop (kepler_f (Fin M) (Fin 0)) maxiter (brent_init M)"
  using assms
  by (simp add: scipy_brentq_def kepler_circ brent_init_def Let_def zero_less_mult_iff
      mult_less_0_iff)

lemma brentq_circular:
  assumes "0 \<le> M" and "M < 2 * pi"
  shows "\<exists>E. scipy_brentq (kepler_f (Fin M) (Fin 0)) (Fin 0) (Fin (2 * pi)) = Inr (Fin E)
    \<and> 0 \<le> E \<and> E \<le> 2 * pi \<and> \<bar>E - M\<bar> < brentq_tol
    \<and> (xtol / 2 \<le> M \<and> M \<le> 2 * pi - brentq_tol \<longrightarrow> E = M)"
proof -
  let ?f = "kepler_f (Fin M) (Fin 0)"
  have tp: "0 < brentq_tol" using brentq_tol_bounds(1) xtol_pos by simp
  have t1: "brentq_tol < 1" by (rule brentq_tol_bounds(2))
  note xp = xtol_pos and xt = brentq_tol_bounds(1) and p2 = pi_ge_two
  consider (zero) "M = 0" | (low) "0 < M" "M < pi" | (mid) "M = pi" | (high) "pi < M"
    using assms by linarith
  then show ?thesis
  proof cases
    case zero
    with tp xp xt show ?thesis by (simp add: brentq_zero)
  next
    case low
    let ?x = "if xtol / 2 < M then M else xtol / 2"
    note s1 = brent_step_low [OF low]
    show ?thesis
    proof (cases "xtol / 2 \<le> M")
      case True
      then have x: "?x = M" by simp
      have "brent_loop ?f maxiter (brent_init M) = Inr (Fin M)"
        unfolding maxiter_two
        by (rule brent_loop_two [OF s1 [unfolded x]]) (simp add: brent_step_root)
      with low assms tp show ?thesis by (simp add: scipy_brentq_loop)
    next
      case False
      then have x: "?x = xtol / 2" and m: "M < xtol / 2" by simp_all
      have "brent_loop ?f maxiter (brent_init M)
          = Inr (Fin (if 2 * M < xtol / 2 then 0 else xtol / 2))"
        unfolding maxiter_two
        by (rule brent_loop_two [OF s1 [unfolded x]]) (rule brent_step_low_second [OF low(1) m])
      with low assms m xp xt p2 show ?thesis by (simp add: scipy_brentq_loop)
    qed
  next
    case mid
    have "brent_loop (kepler_f (Fin pi) (Fin 0)) maxiter (brent_init pi) = Inr (Fin pi)"
      unfolding maxiter_two
      by (rule brent_loop_two [OF brent_step_mid]) (simp add: brent_step_root)
    with mid tp pi_gt_zero show ?thesis by (simp add: scipy_brentq_loop)
  next
    case high
    let ?x = "if brentq_tol < 2 * pi - M then M else 2 * pi - brentq_tol"
    note s1 = brent_step_high [OF high assms(2)]
    show ?thesis
    proof (cases "brentq_tol \<le> 2 * pi - M")
      case True
      then have x: "?x = M" by auto
      have "brent_loop ?f maxiter (brent_init M) = Inr (Fin M)"
        unfolding maxiter_two
        by (rule brent_loop_two [OF s1 [unfolded x]]) (simp add: brent_step_root)
      with high assms tp pi_gt_zero show ?thesis by (simp add: scipy_brentq_loop)
    next
      case False
      then have x: "?x = 2 * pi - brentq_tol" and m: "2 * pi - M < brentq_tol" by simp_all
      have "brent_loop ?f maxiter (brent_init M)
          = Inr (Fin (if 2 * pi - M < M - (2 * pi - brentq_tol) then 2 * pi
                      else 2 * pi - brentq_tol))"
        unfolding maxiter_two
        by (rule brent_loop_two [OF s1 [unfolded x]])
           (rule brent_step_high_second [OF high assms(2) m])
      with high assms m tp t1 p2 pi_gt_zero show ?thesis by (simp add: scipy_brentq_loop)
    qed
  qed
qed

lemma brentq_circular_tiny:
  assumes "0 < M" and "2 * M < xtol / 2"
  shows "scipy_brentq (kepler_f (Fin M) (Fin 0)) (Fin 0) (Fin (2 * pi)) = Inr (Fin 0)"
proof -
  from assms xtol_less_1 pi_ge_two have m: "M < pi" "M < 2 * pi" "M < xtol / 2" "\<not> xtol / 2 < M"
    by simp_all
  note s1 = brent_step_low [OF assms(1) m(1)]
  have s2: "brent_step (kepler_f (Fin M) (Fin 0))
      \<lparr>xpre = Fin 0, xcur = Fin (xtol / 2), xblk = Fin (2 * pi),
       fpre = Fin (- M), fcur = Fin (xtol / 2 - M),
       fblk = Fin (2 * pi - M), spre = Fin (2 * pi), scur = Fin M\<rparr> = Inl (Fin 0)"
    using brent_step_low_second [OF assms(1) m(3)] assms(2) by simp
  have "brent_loop (kepler_f (Fin M) (Fin 0)) maxiter (brent_init M) = Inr (Fin 0)"
    unfolding maxiter_two
    by (rule brent_loop_two [OF s1 [simplified m(4) if_False] s2])
  with assms(1) m(2) show ?thesis by (simp add: scipy_brentq_loop)
qed

lemma radial_velocity_circular:
  assumes "T \<noteq> 0"
    and "scipy_brentq (kepler_f (Fin (2 * pi * frac (t / T + chi))) (Fin 0)) (Fin 0) (Fin (2 * pi))
           = Inr (Fin E)"
  shows "radial_velocity scipy_brentq (Scalar (Fin t))
           (Fin T # Fin 0 # Fin K # Fin V # Fin omega # Fin chi # rest)
         = Inr (Scalar (Fin (V - K * sin (E + omega))))"
proof -
  from assms(1) have m: "mean_anomaly (Fin T) (Fin chi) (Fin t) = Fin (2 * pi * frac (t / T + chi))"
    by (simp add: mean_anomaly_finite)
  have s: "sin (2 * arctan2 (sin (E / 2)) (cos (E / 2)) + omega) = sin (E + omega)"
    using sin_twice_arctan2 [of "E / 2" omega] by simp
  show ?thesis
    using assms(2)
    by (simp add: radial_velocity_def m compute_E_scalar_def true_anomaly_circular s fsub_def)
qed

text \<open>
  On Kepler's function the bracket \<open>[0, 2 pi]\<close> is valid for every eccentricity: the
  solver does not raise \<open>ValueError\<close>.
\<close>

lemma brent_loop_error: "brent_loop f n st = Inl err \<Longrightarrow> err = RuntimeError"
  by (induction n arbitrary: st) (auto split: sum.splits)

lemma kepler_bracket:
  assumes "0 \<le> M" and "M < 2 * pi"
  shows "kepler_f (Fin M) (Fin e) (Fin 0) = Fin (- M)
    \<and> kepler_f (Fin M) (Fin e) (Fin (2 * pi)) = Fin (2 * pi - M)
    \<and> scipy_brentq (kepler_f (Fin M) (Fin e)) (Fin 0) (Fin (2 * pi)) \<noteq> Inl ValueError"
proof -
  have f: "kepler_f (Fin M) (Fin e) (Fin 0) = Fin (- M)"
    "kepler_f (Fin M) (Fin e) (Fin (2 * pi)) = Fin (2 * pi - M)"
    by (simp_all add: kepler_f_finite)
  from assms have "\<not> 0 < - M * (2 * pi - M)"
    by (simp add: zero_less_mult_iff mult_less_0_iff)
  then have "scipy_brentq (kepler_f (Fin M) (Fin e)) (Fin 0) (Fin (2 * pi)) \<noteq> Inl ValueError"
    using brent_loop_error [of "kepler_f (Fin M) (Fin e)" maxiter _ ValueError]
    by (auto simp: scipy_brentq_def f Let_def)
  with f show ?thesis by simp
qed

lemma sequence_err_map:
  "(case sequence_err (map c xs) of Inl err \<Rightarrow> Inl err | Inr ys \<Rightarrow> Inr (map h ys))
   = sequence_err (map (\<lambda>x. case c x of Inl err \<Rightarrow> Inl err | Inr y \<Rightarrow> Inr (h y)) xs)"
  by (induction xs) (auto split: sum.splits)

lemma radial_velocity_scalar:
  "radial_velocity_item brentq theta t
   = (if length theta < 6 then Inl ValueError
      else case compute_E_scalar brentq (mean_anomaly (theta ! 0) (theta ! 5) t) (theta ! 1) of
             Inl err \<Rightarrow> Inl err
           | Inr E \<Rightarrow> Inr (fsub (theta ! 3) (fmul (theta ! 2)
               (fadd (fsin (fadd (true_anomaly (theta ! 1) E) (theta ! 4)))
                     (fmul (theta ! 1) (fsin (theta ! 4)))))))"
  by (simp add: radial_velocity_item_def radial_velocity_def Let_def split: sum.splits)

lemma map_index: "length xs = n \<Longrightarrow> map f xs = map (\<lambda>i. f (xs ! i)) [0..<n]"
  by (auto intro!: nth_equalityI)

lemma map2_index:
  "length xs = n \<Longrightarrow> length ys = n \<Longrightarrow> map2 f xs ys = map (\<lambda>i. f (xs ! i) (ys ! i)) [0..<n]"
  by (auto intro!: nth_equalityI)

lemma foldl_fadd_Fin: "foldl fadd (Fin a) (map (\<lambda>i. Fin (F i)) js) = Fin (a + sum_list (map F js))"
  by (induction js arbitrary: a) (simp_all add: add.assoc)

lemma np_sum_Fin: "np_sum (Array (map (\<lambda>i. Fin (F i)) [0..<n])) = Fin (\<Sum>i<n. F i)"
  by (simp add: foldl_fadd_Fin interv_sum_list_conv_sum_set_nat atLeast0LessThan)

lemma rv_circular_array:
  "radial_velocity scipy_brentq (Array [Fin 0]) theta_circular = Inr (Array [Fin 0])"
  by (simp add: radial_velocity_def theta_circular_def mean_anomaly_def compute_E_scalar_def
      brentq_zero true_anomaly_def fsub_def arctan2_def)

section \<open>The forward model: claims\<close>

text \<open>
  Claim C7 says that for \<open>e = 0\<close> the velocity is exactly \<open>V - K sin (M + omega)\<close>,
  whatever the solver does. The forward model has no branch for \<open>e = 0\<close>: the velocity is
  computed from the value that the solver returns, and the solver stops within its
  tolerance of the root. Here \<open>t = 4e-14\<close> and \<open>T = 4\<close>, so \<open>M = 2 pi 1e-14\<close>, closer
  to the end \<open>0\<close> of the bracket than \<open>xtol / 4\<close>: the solver returns \<open>0\<close> and the velocity
  is \<open>0\<close>, not \<open>- sin M\<close>.
\<close>

theorem circular_orbit_counterexample:
  "radial_velocity scipy_brentq (Scalar (Fin (4 / 10 ^ 14))) theta_circular = Inr (Scalar (Fin 0))
   \<and> (0::real) - 1 * sin (2 * pi * frac (4 / 10 ^ 14 / 4 + 0) + 0) \<noteq> 0"
proof -
  have f: "frac (4 / 10 ^ 14 / 4 + 0 :: real) = 1 / 10 ^ 14"
    by (simp add: frac_unique_iff)
  let ?M = "2 * pi * (1 / 10 ^ 14)"
  have p: "0 < ?M" using pi_gt_zero by simp
  have "?M < 8 / 10 ^ 14" using pi_less_4 by simp
  then have q: "2 * ?M < xtol / 2" "?M < pi" using pi_ge_two by (simp_all add: xtol_def)
  have b: "scipy_brentq (kepler_f (Fin (2 * pi * frac (4 / 10 ^ 14 / 4 + 0))) (Fin 0)) (Fin 0)
      (Fin (2 * pi)) = Inr (Fin 0)"
    unfolding f by (rule brentq_circular_tiny [OF p q(1)])
  have "(4::real) \<noteq> 0" by simp
  from radial_velocity_circular [OF this b, of 1 0 0 "[Fin 1]"]
  have v: "radial_velocity scipy_brentq (Scalar (Fin (4 / 10 ^ 14))) theta_circular
      = Inr (Scalar (Fin 0))"
    by (simp add: theta_circular_def)
  have "0 < sin ?M" using p q(2) by (intro sin_gt_zero) simp_all
  then have "(0::real) - 1 * sin (2 * pi * frac (4 / 10 ^ 14 / 4 + 0) + 0) \<noteq> 0"
    unfolding f by simp
  with v show ?thesis by simp
qed

text \<open>
  Claim C7, amended: for \<open>e = 0\<close>, \<open>T > 0\<close> and a scalar time \<open>t\<close>, with
  \<open>M = 2 pi frac (t / T + chi)\<close>, the forward model returns \<open>V - K sin (E + omega)\<close>, with no
  eccentricity correction, where \<open>E\<close> in \<open>[0, 2 pi]\<close> is the value that the solver returns
  and differs from \<open>M\<close> by less than \<open>brentq_tol = (xtol + 2 pi rtol) / 2\<close>; so the
  velocity is within \<open>|K| brentq_tol\<close> of \<open>V - K sin (M + omega)\<close>, and it is exactly that
  when \<open>xtol / 2 \<le> M \<le> 2 pi - brentq_tol\<close>.
\<close>

theorem circular_orbit_velocity:
  assumes "0 < T"
  shows "\<exists>E. radial_velocity scipy_brentq (Scalar (Fin t))
              (Fin T # Fin 0 # Fin K # Fin V # Fin omega # Fin chi # rest)
            = Inr (Scalar (Fin (V - K * sin (E + omega))))
    \<and> 0 \<le> E \<and> E \<le> 2 * pi
    \<and> \<bar>E - 2 * pi * frac (t / T + chi)\<bar> < brentq_tol
    \<and> \<bar>(V - K * sin (E + omega)) - (V - K * sin (2 * pi * frac (t / T + chi) + omega))\<bar>
         \<le> \<bar>K\<bar> * brentq_tol
    \<and> (xtol / 2 \<le> 2 * pi * frac (t / T + chi) \<and> 2 * pi * frac (t / T + chi) \<le> 2 * pi - brentq_tol
         \<longrightarrow> E = 2 * pi * frac (t / T + chi))"
proof -
  let ?M = "2 * pi * frac (t / T + chi)"
  have "0 \<le> frac (t / T + chi)" "frac (t / T + chi) < 1"
    by (simp_all add: frac_lt_1)
  then have r: "0 \<le> ?M" "?M < 2 * pi" using pi_gt_zero by simp_all
  from brentq_circular [OF r] obtain E
    where b: "scipy_brentq (kepler_f (Fin ?M) (Fin 0)) (Fin 0) (Fin (2 * pi)) = Inr (Fin E)"
      and e: "0 \<le> E" "E \<le> 2 * pi" "\<bar>E - ?M\<bar> < brentq_tol"
      and x: "xtol / 2 \<le> ?M \<and> ?M \<le> 2 * pi - brentq_tol \<longrightarrow> E = ?M"
    by blast
  from assms have "T \<noteq> 0" by simp
  note v = radial_velocity_circular [OF this b]
  have "(V - K * sin (E + omega)) - (V - K * sin (?M + omega))
      = - K * (sin (E + omega) - sin (?M + omega))"
    by (simp add: algebra_simps)
  then have "\<bar>(V - K * sin (E + omega)) - (V - K * sin (?M + omega))\<bar>
      = \<bar>K\<bar> * \<bar>sin (E + omega) - sin (?M + omega)\<bar>"
    by (simp add: abs_mult)
  also have "\<dots> \<le> \<bar>K\<bar> * \<bar>(E + omega) - (?M + omega)\<bar>"
    by (intro mult_left_mono abs_sin_diff_le) simp
  also have "\<dots> \<le> \<bar>K\<bar> * brentq_tol"
    using e(3) by (intro mult_left_mono) simp_all
  finally have d: "\<bar>(V - K * sin (E + omega)) - (V - K * sin (?M + omega))\<bar> \<le> \<bar>K\<bar> * brentq_tol" .
  from v e x d show ?thesis by blast
qed

theorem circular_orbit_velocity_witness:
  "radial_velocity scipy_brentq (Scalar (Fin 1)) theta_circular = Inr (Scalar (Fin (- 1)))"
proof -
  have a: "(0::real) < 4" by simp
  have f: "2 * pi * frac (1 / 4 + 0) = pi / 2" by (simp add: frac_quarter)
  from circular_orbit_velocity [OF a, where t = 1 and K = 1 and V = 0 and omega = 0 and chi = 0
      and rest = "[Fin 1]"]
  obtain E where v: "radial_velocity scipy_brentq (Scalar (Fin 1)) theta_circular
        = Inr (Scalar (Fin (0 - 1 * sin (E + 0))))"
    and x: "xtol / 2 \<le> 2 * pi * frac (1 / 4 + 0) \<and> 2 * pi * frac (1 / 4 + 0) \<le> 2 * pi - brentq_tol
         \<longrightarrow> E = 2 * pi * frac (1 / 4 + 0)"
    unfolding theta_circular_def by blast
  have "xtol / 2 \<le> pi / 2" using xtol_less_1 pi_ge_two by simp
  moreover have "pi / 2 \<le> 2 * pi - brentq_tol" using brentq_tol_bounds(2) pi_ge_two by simp
  ultimately have "E = pi / 2" using x unfolding f by simp
  with v show ?thesis by simp
qed

text \<open>
  Claim C8 says that the radial-velocity log-likelihood has the factor \<open>2 pi\<close> inside the
  logarithm. \<open>log_likelihood\<close> takes \<open>np.log(sq_err)\<close>: for one observation
  \<open>(t, y, sigma) = (0, 0, 1)\<close> and the in-range parameters \<open>theta_circular\<close> (\<open>s = 1\<close>,
  predicted velocity \<open>0\<close>) it returns \<open>- ln 2 / 2\<close>, not \<open>- ln (4 pi) / 2\<close>.
\<close>

theorem log_likelihood_two_pi_counterexample:
  "\<not> out_of_range theta_circular
   \<and> radial_velocity scipy_brentq (Array [Fin 0]) theta_circular = Inr (Array [Fin 0])
   \<and> log_likelihood scipy_brentq theta_circular (Array [Fin 0]) (Array [Fin 0]) (Array [Fin 1])
       = Inr (Fin (- 1 / 2 * ln 2))
   \<and> - 1 / 2 * ln 2 \<noteq> - 1 / 2 * (ln (2 * pi * (1\<^sup>2 + 1\<^sup>2)) + (0 - 0)\<^sup>2 / (1\<^sup>2 + 1\<^sup>2) :: real)"
proof -
  have r: "\<not> out_of_range theta_circular"
    using pi_gt_zero by (simp add: out_of_range_def theta_circular_def theta_min_def theta_max_def)
  have l: "log_likelihood scipy_brentq theta_circular (Array [Fin 0]) (Array [Fin 0]) (Array [Fin 1])
       = Inr (Fin (- 1 / 2 * ln 2))"
    using rv_circular_array
    by (simp add: log_likelihood_def theta_circular_def fsquare_def fsub_def)
  have "(2::real) < 2 * pi * 2" using pi_ge_two by simp
  then have "ln (2::real) < ln (2 * pi * 2)" by (subst ln_less_cancel_iff) simp_all
  then have n: "- 1 / 2 * ln 2 \<noteq> - 1 / 2 * (ln (2 * pi * (1\<^sup>2 + 1\<^sup>2)) + (0 - 0)\<^sup>2 / (1\<^sup>2 + 1\<^sup>2) :: real)"
    by simp
  from r rv_circular_array l n show ?thesis by blast
qed

text \<open>
  Claim C8, amended: for a parameter vector with noise scale \<open>s = theta[6] > 0\<close> and
  \<open>n\<close> finite observations \<open>(t\<^sub>i, y\<^sub>i, sigma\<^sub>i)\<close> for which the forward model returns
  the finite velocities \<open>v\<^sub>i\<close>, the log-likelihood is the sum over the points of
  \<open>- 1/2 (ln (sigma\<^sub>i\<^sup>2 + s\<^sup>2) + (y\<^sub>i - v\<^sub>i)\<^sup>2 / (sigma\<^sub>i\<^sup>2 + s\<^sup>2))\<close>, without
  the factor \<open>2 pi\<close>.
\<close>

theorem log_likelihood_sum:
  assumes "length ts = n" and "length ys = n" and "length sigmas = n" and "length vs = n"
    and "7 \<le> length theta" and "theta ! 6 = Fin s" and "0 < s"
    and "radial_velocity brentq (Array (map Fin ts)) theta = Inr (Array (map Fin vs))"
  shows "log_likelihood brentq theta (Array (map Fin ts)) (Array (map Fin ys))
           (Array (map Fin sigmas))
         = Inr (Fin (\<Sum>i<n. - 1 / 2 * (ln ((sigmas ! i)\<^sup>2 + s\<^sup>2)
                         + (ys ! i - vs ! i)\<^sup>2 / ((sigmas ! i)\<^sup>2 + s\<^sup>2))))"
proof -
  let ?q = "\<lambda>i. (sigmas ! i)\<^sup>2 + s\<^sup>2"
  have nz: "s \<noteq> 0" "\<not> sigmas ! i * sigmas ! i + s * s < 0" for i
    using assms(7) by (simp_all add: not_less)
  have sq: "np_map (\<lambda>x. fadd x (fsquare (theta ! 6))) (np_map fsquare (Array (map Fin sigmas)))
      = Array (map (\<lambda>i. Fin (?q i)) [0..<n])"
    using assms(3,6) by (simp add: fsquare_def power2_eq_square map_index [of sigmas n])
  have d: "np_binop fsub (Array (map Fin ys)) (Array (map Fin vs))
      = Inr (Array (map (\<lambda>i. Fin (ys ! i - vs ! i)) [0..<n]))"
    using assms(2,4) by (simp add: map2_index [of _ n] fsub_def)
  have q: "np_binop fdiv (np_map fsquare (Array (map (\<lambda>i. Fin (ys ! i - vs ! i)) [0..<n])))
             (Array (map (\<lambda>i. Fin (?q i)) [0..<n]))
      = Inr (Array (map (\<lambda>i. Fin ((ys ! i - vs ! i)\<^sup>2 / ?q i)) [0..<n]))"
    using nz by (simp add: map2_index [of _ n] fsquare_def power2_eq_square del: add_nonneg_eq_0_iff)
  have l: "np_map flog (Array (map (\<lambda>i. Fin (?q i)) [0..<n]))
      = Array (map (\<lambda>i. Fin (ln (?q i))) [0..<n])"
    using nz by (simp add: power2_eq_square)
  have s: "np_binop fadd (Array (map (\<lambda>i. Fin (ln (?q i))) [0..<n]))
             (Array (map (\<lambda>i. Fin ((ys ! i - vs ! i)\<^sup>2 / ?q i)) [0..<n]))
      = Inr (Array (map (\<lambda>i. Fin (ln (?q i) + (ys ! i - vs ! i)\<^sup>2 / ?q i)) [0..<n]))"
    by (simp add: map2_index [of _ n])
  from assms(5) have "\<not> length theta < 7" by simp
  then show ?thesis
    unfolding log_likelihood_def Let_def sq assms(8)
    by (simp only: if_False sum.case d q l s np_sum_Fin fmul.simps sum_distrib_left)
qed

theorem log_likelihood_sum_witness:
  "log_likelihood scipy_brentq theta_circular (Array [Fin 0]) (Array [Fin 0]) (Array [Fin 1])
     = Inr (Fin (- 1 / 2 * ln 2))"
proof -
  have a: "length [0::real] = 1" "length [0::real] = 1" "length [1::real] = 1"
    "length [0::real] = 1" "7 \<le> length theta_circular" "theta_circular ! 6 = Fin 1" "(0::real) < 1"
    by (simp_all add: theta_circular_def)
  have b: "radial_velocity scipy_brentq (Array (map Fin [0])) theta_circular
      = Inr (Array (map Fin [0]))"
    using rv_circular_array by simp
  from log_likelihood_sum [OF a b] show ?thesis by simp
qed

text \<open>
  Claim C9 says that on a sequence of times the forward model returns the element-wise
  map of the scalar algorithm. On the empty sequence the map is the empty sequence, but
  the vectorised \<open>compute_E\<close> raises \<open>ValueError\<close>.
\<close>

theorem radial_velocity_empty_counterexample:
  "radial_velocity scipy_brentq (Array []) theta_circular = Inl ValueError
   \<and> sequence_err (map (radial_velocity_item scipy_brentq theta_circular) []) = Inr []"
  by (simp add: radial_velocity_def theta_circular_def)

text \<open>
  Claim C9, amended: the forward model accepts a scalar time or a sequence of times; on a
  sequence that is not empty it returns the sequence of the values that it returns on
  each time alone, in order, or raises the first exception that one of them raises.
\<close>

theorem radial_velocity_elementwise:
  assumes "ts \<noteq> []"
  shows "radial_velocity brentq (Array ts) theta
    = (case sequence_err (map (radial_velocity_item brentq theta) ts) of
         Inl err \<Rightarrow> Inl err
       | Inr vs \<Rightarrow> Inr (Array vs))"
proof (cases "length theta < 6")
  case True
  from assms obtain t ts' where "ts = t # ts'" by (cases ts) auto
  with True show ?thesis by (simp add: radial_velocity_def radial_velocity_item_def)
next
  case False
  let ?c = "\<lambda>t. compute_E_scalar brentq (mean_anomaly (theta ! 0) (theta ! 5) t) (theta ! 1)"
  let ?h = "\<lambda>E. fsub (theta ! 3) (fmul (theta ! 2)
               (fadd (fsin (fadd (true_anomaly (theta ! 1) E) (theta ! 4)))
                     (fmul (theta ! 1) (fsin (theta ! 4)))))"
  have i: "radial_velocity_item brentq theta
      = (\<lambda>t. case ?c t of Inl err \<Rightarrow> Inl err | Inr E \<Rightarrow> Inr (?h E))"
    using False by (simp add: radial_velocity_scalar fun_eq_iff)
  have "radial_velocity brentq (Array ts) theta
      = (case sequence_err (map ?c ts) of Inl err \<Rightarrow> Inl err | Inr Es \<Rightarrow> Inr (Array (map ?h Es)))"
    using False assms by (simp add: radial_velocity_def Let_def comp_def split: sum.splits)
  also have "\<dots> = (case (case sequence_err (map ?c ts) of Inl err \<Rightarrow> Inl err
                             | Inr Es \<Rightarrow> Inr (map ?h Es)) of
                      Inl err \<Rightarrow> Inl err | Inr vs \<Rightarrow> Inr (Array vs))"
    by (simp split: sum.splits)
  also have "\<dots> = (case sequence_err (map (\<lambda>t. case ?c t of Inl err \<Rightarrow> Inl err
                                              | Inr E \<Rightarrow> Inr (?h E)) ts) of
                      Inl err \<Rightarrow> Inl err | Inr vs \<Rightarrow> Inr (Array vs))"
    by (simp only: sequence_err_map)
  finally show ?thesis by (simp only: i)
qed

theorem radial_velocity_elementwise_witness:
  "radial_velocity scipy_brentq (Array [Fin 0, Fin 4]) theta_circular
     = Inr (Array [Fin 0, Fin 0])"
proof -
  have a: "[Fin 0, Fin 4] \<noteq> []" by simp
  have s: "radial_velocity_item scipy_brentq theta_circular (Fin 0) = Inr (Fin 0)"
    "radial_velocity_item scipy_brentq theta_circular (Fin 4) = Inr (Fin 0)"
    by (simp_all add: radial_velocity_item_def radial_velocity_def theta_circular_def
        mean_anomaly_def compute_E_scalar_def brentq_zero true_anomaly_def
        fsub_def arctan2_def)
  from radial_velocity_elementwise [OF a, of scipy_brentq theta_circular] s show ?thesis
    by simp
qed

end
